theory Spec2Isabelle
  imports Complex_Main "HOL-Library.Word"
begin

unbundle bit_operations_syntax

section \<open>Numbers\<close>

text \<open>
  The generator state and the entropy pool hold unsigned 32-bit integers (every store is
  followed by \<open>>>> 0\<close>, and the seeds come from \<open>Uint32Array\<close>s): they are
  \<open>32 word\<close>s, whose \<open>+\<close> and \<open>*\<close> wrap as \<open>(a + b) >>> 0\<close> and
  \<open>Math.imul(a, b) >>> 0\<close> do. The samples, the filter accumulators and the crossfade
  progress are JavaScript numbers; they are idealised as \<open>real\<close>, so a statement about
  them is a statement about the arithmetic the code writes down, not about its rounding.
\<close>

type_synonym u32 = "32 word"

section \<open>xoshiro128++ (NoiseProcessor.ts)\<close>

record XoshiroState =
  s0 :: u32
  s1 :: u32
  s2 :: u32
  s3 :: u32

text \<open>
  \<open>((x << k) | (x >>> (32 - k))) >>> 0\<close>. JavaScript takes a shift count modulo 32.
\<close>

definition rotl :: "u32 \<Rightarrow> nat \<Rightarrow> u32" where
  "rotl x k = push_bit (k mod 32) x OR drop_bit ((32 - k) mod 32) x"

text \<open>The function mutates its argument and returns the result: the model returns both.\<close>

definition xoshiroNext :: "XoshiroState \<Rightarrow> u32 \<times> XoshiroState" where
  "xoshiroNext state =
     (let result = rotl (s0 state + s3 state) 7 + s0 state;
          t = push_bit 9 (s1 state);
          state = state\<lparr>s2 := s2 state XOR s0 state\<rparr>;
          state = state\<lparr>s3 := s3 state XOR s1 state\<rparr>;
          state = state\<lparr>s1 := s1 state XOR s2 state\<rparr>;
          state = state\<lparr>s0 := s0 state XOR s3 state\<rparr>;
          state = state\<lparr>s2 := s2 state XOR t\<rparr>;
          state = state\<lparr>s3 := rotl (s3 state) 11\<rparr>
      in (result, state))"

definition nextSignedFloat :: "XoshiroState \<Rightarrow> real \<times> XoshiroState" where
  "nextSignedFloat state =
     (let (r, state) = xoshiroNext state
      in (real (unat r) / 4294967296 * 2 - 1, state))"

text \<open>The outputs of \<open>n\<close> successive calls, and the state they leave.\<close>

fun xoshiroRun :: "nat \<Rightarrow> XoshiroState \<Rightarrow> u32 list \<times> XoshiroState" where
  "xoshiroRun 0 state = ([], state)"
| "xoshiroRun (Suc n) state =
     (let (r, state) = xoshiroNext state;
          (rs, state) = xoshiroRun n state
      in (r # rs, state))"

subsection \<open>The step as the specification words it, on natural numbers below \<open>2 ^ 32\<close>\<close>

definition rotl_spec :: "nat \<Rightarrow> nat \<Rightarrow> nat" where
  "rotl_spec x k = ((x * 2 ^ k) OR (x div 2 ^ (32 - k))) mod 2 ^ 32"

definition xoshiro_spec :: "nat \<times> nat \<times> nat \<times> nat \<Rightarrow> nat \<times> (nat \<times> nat \<times> nat \<times> nat)" where
  "xoshiro_spec q =
     (case q of (a, b, c, d) \<Rightarrow>
        let result = (rotl_spec ((a + d) mod 2 ^ 32) 7 + a) mod 2 ^ 32;
            t = (b * 2 ^ 9) mod 2 ^ 32;
            c = c XOR a;
            d = d XOR b;
            b = b XOR c;
            a = a XOR d;
            c = c XOR t;
            d = rotl_spec d 11
        in (result, (a, b, c, d)))"

definition words_of :: "XoshiroState \<Rightarrow> nat \<times> nat \<times> nat \<times> nat" where
  "words_of state = (unat (s0 state), unat (s1 state), unat (s2 state), unat (s3 state))"


subsection \<open>Seeding and entropy mixing\<close>

text \<open>\<open>seeds[i] ?? c\<close>: the word at \<open>i\<close>, or \<open>c\<close> where the array is shorter.\<close>

definition seedAt :: "u32 list \<Rightarrow> nat \<Rightarrow> u32 \<Rightarrow> u32" where
  "seedAt seeds i c = (if i < length seeds then seeds ! i else c)"

definition initState :: "u32 list \<Rightarrow> XoshiroState" where
  "initState seeds =
     \<lparr>s0 = seedAt seeds 0 0x12345678,
      s1 = seedAt seeds 1 0x9abcdef0,
      s2 = seedAt seeds 2 0xdeadbeef,
      s3 = seedAt seeds 3 0xcafebabe\<rparr>"

text \<open>\<open>Uint32Array.subarray(begin, end)\<close> for \<open>begin \<le> end\<close>, both clamped to the length.\<close>

definition subarray :: "u32 list \<Rightarrow> nat \<Rightarrow> nat \<Rightarrow> u32 list" where
  "subarray a begin end = drop begin (take end a)"

text \<open>
  The first loop of \<open>mixEntropy\<close>, from index \<open>i\<close> on. A word read inside the
  bounds of a \<open>Uint32Array\<close> is never \<open>undefined\<close>, so the \<open>continue\<close> is dead.
\<close>

fun mixWords :: "nat \<Rightarrow> u32 list \<Rightarrow> XoshiroState \<Rightarrow> XoshiroState" where
  "mixWords i [] state = state"
| "mixWords i (word # words) state =
     mixWords (Suc i) words
       (if i mod 4 = 0 then state\<lparr>s0 := s0 state XOR word\<rparr>
        else if i mod 4 = 1 then state\<lparr>s1 := s1 state XOR rotl word 5\<rparr>
        else if i mod 4 = 2 then state\<lparr>s2 := s2 state XOR rotl word 13\<rparr>
        else state\<lparr>s3 := s3 state XOR rotl word 21\<rparr>)"

text \<open>The second loop: \<open>n\<close> calls of \<open>xoshiroNext\<close> whose results are dropped.\<close>

fun advance :: "nat \<Rightarrow> XoshiroState \<Rightarrow> XoshiroState" where
  "advance 0 state = state"
| "advance (Suc n) state = advance n (snd (xoshiroNext state))"

definition mixEntropy :: "XoshiroState \<Rightarrow> u32 list \<Rightarrow> XoshiroState" where
  "mixEntropy state words = advance 8 (mixWords 0 words state)"

subsection \<open>Pink and brown filters\<close>

record PinkState =
  b0 :: real
  b1 :: real
  b2 :: real

definition initPinkState :: PinkState where
  "initPinkState = \<lparr>b0 = 0, b1 = 0, b2 = 0\<rparr>"

definition pinkFilter :: "PinkState \<Rightarrow> real \<Rightarrow> real \<times> PinkState" where
  "pinkFilter pink white =
     (let pink = pink\<lparr>b0 := 0.99765 * b0 pink + white * 0.0990460\<rparr>;
          pink = pink\<lparr>b1 := 0.96300 * b1 pink + white * 0.2965164\<rparr>;
          pink = pink\<lparr>b2 := 0.57000 * b2 pink + white * 1.0526913\<rparr>;
          output = b0 pink + b1 pink + b2 pink + white * 0.1848
      in (output * 0.16, pink))"

record BrownState =
  b :: real
  decay :: real
  scale :: real
  gain :: real

definition initBrownState :: "real \<Rightarrow> BrownState" where
  "initBrownState sampleRate =
     (let tau = 0.02;
          decay = exp (- 1 / (sampleRate * tau));
          scale = 1 - decay;
          gain = sqrt ((1 + decay) / (1 - decay)) * 0.5
      in \<lparr>b = 0, decay = decay, scale = scale, gain = gain\<rparr>)"

definition brownFilter :: "BrownState \<Rightarrow> real \<Rightarrow> real \<times> BrownState" where
  "brownFilter brown white =
     (let brown = brown\<lparr>b := decay brown * b brown + scale brown * white\<rparr>;
          brown = (if b brown > 1 then brown\<lparr>b := 1\<rparr> else brown);
          brown = (if b brown < - 1 then brown\<lparr>b := - 1\<rparr> else brown)
      in (b brown * gain brown, brown))"

text \<open>The filter fed a sequence of white samples: the outputs and the final state.\<close>

fun brownRun :: "BrownState \<Rightarrow> real list \<Rightarrow> real list \<times> BrownState" where
  "brownRun brown [] = ([], brown)"
| "brownRun brown (white # whites) =
     (let (y, brown) = brownFilter brown white;
          (ys, brown) = brownRun brown whites
      in (y # ys, brown))"

text \<open>The accumulator states the same run goes through, one after every update.\<close>

fun brownStates :: "BrownState \<Rightarrow> real list \<Rightarrow> BrownState list" where
  "brownStates brown [] = []"
| "brownStates brown (white # whites) =
     snd (brownFilter brown white) # brownStates (snd (brownFilter brown white)) whites"

definition clamped :: "BrownState \<Rightarrow> bool" where
  "clamped brown = (- 1 \<le> b brown \<and> b brown \<le> 1)"

subsection \<open>The processor\<close>

datatype Mode = Pink | Brown

datatype WorkletMessage =
    EntropySeeds "u32 list"
  | InitialSeeds "u32 list"
  | SetMode Mode

datatype PortMessage = NeedSeed

record NoiseProcessor =
  stateL :: XoshiroState
  stateR :: XoshiroState
  pinkL :: PinkState
  pinkR :: PinkState
  brownL :: BrownState
  brownR :: BrownState
  currentMode :: Mode
  targetMode :: Mode
  crossfadeProgress :: real
  crossfadeSamplesRemaining :: int
  crossfadeDuration :: real
  seedQueue :: "u32 list list"
  samplesSinceLastSeed :: int
  seedRequestThreshold :: int
  initialized :: bool

text \<open>
  The constructor. \<open>sampleRate\<close> is the global of the worklet scope. The eight fallback
  seeds, which the source computes from the global \<open>currentFrame\<close>, are a parameter.
\<close>

definition newNoiseProcessor :: "real \<Rightarrow> u32 list \<Rightarrow> NoiseProcessor" where
  "newNoiseProcessor sampleRate fallbackSeeds =
     \<lparr>stateL = initState (subarray fallbackSeeds 0 4),
      stateR = initState (subarray fallbackSeeds 4 8),
      pinkL = initPinkState,
      pinkR = initPinkState,
      brownL = initBrownState sampleRate,
      brownR = initBrownState sampleRate,
      currentMode = Pink,
      targetMode = Pink,
      crossfadeProgress = 1,
      crossfadeSamplesRemaining = 0,
      crossfadeDuration = 0.05,
      seedQueue = [],
      samplesSinceLastSeed = 0,
      seedRequestThreshold = \<lfloor>sampleRate * 0.5\<rfloor>,
      initialized = False\<rparr>"

fun handleMessage :: "real \<Rightarrow> NoiseProcessor \<Rightarrow> WorkletMessage \<Rightarrow> NoiseProcessor" where
  "handleMessage sampleRate this (InitialSeeds seeds) =
     (if \<not> initialized this \<and> length seeds \<ge> 8
      then this\<lparr>stateL := initState (subarray seeds 0 4),
                stateR := initState (subarray seeds 4 8),
                initialized := True\<rparr>
      else this)"
| "handleMessage sampleRate this (EntropySeeds seeds) =
     this\<lparr>seedQueue := seedQueue this @ [seeds]\<rparr>"
| "handleMessage sampleRate this (SetMode mode) =
     (if mode \<noteq> targetMode this
      then (let this = this\<lparr>targetMode := mode\<rparr>
            in if crossfadeProgress this \<ge> 1
               then this\<lparr>crossfadeProgress := 0,
                         crossfadeSamplesRemaining := \<lfloor>crossfadeDuration this * sampleRate\<rfloor>\<rparr>
               else this)
      else this)"

text \<open>\<open>process\<close>, first part: the entropy request. It returns the messages posted.\<close>

definition requestSeed :: "nat \<Rightarrow> NoiseProcessor \<Rightarrow> PortMessage list \<times> NoiseProcessor" where
  "requestSeed blockSize this =
     (let this = this\<lparr>samplesSinceLastSeed := samplesSinceLastSeed this + int blockSize\<rparr>
      in if samplesSinceLastSeed this \<ge> seedRequestThreshold this \<and> length (seedQueue this) < 2
         then ([NeedSeed], this\<lparr>samplesSinceLastSeed := 0\<rparr>)
         else ([], this))"

text \<open>
  Second part: \<open>seedQueue.shift()\<close> and the mixing. A \<open>Uint32Array\<close> is truthy
  whatever its length, so every batch that was queued is mixed.
\<close>

definition mixQueuedSeed :: "NoiseProcessor \<Rightarrow> NoiseProcessor" where
  "mixQueuedSeed this =
     (case seedQueue this of
        [] \<Rightarrow> this
      | seed # rest \<Rightarrow>
          (let this = this\<lparr>seedQueue := rest\<rparr>;
               halfLen = length seed div 2;
               this = this\<lparr>stateL := mixEntropy (stateL this) (subarray seed 0 halfLen)\<rparr>
           in this\<lparr>stateR := mixEntropy (stateR this) (drop halfLen seed)\<rparr>))"

text \<open>
  Third part: one iteration of the sample loop. \<open>crossfading\<close> and
  \<open>crossfadeIncrement\<close> are computed before the loop, once for the block.
\<close>

definition pick :: "Mode \<Rightarrow> real \<Rightarrow> real \<Rightarrow> real" where
  "pick mode pinkSample brownSample = (if mode = Pink then pinkSample else brownSample)"

definition renderSample ::
  "bool \<Rightarrow> real \<Rightarrow> NoiseProcessor \<Rightarrow> (real \<times> real) \<times> NoiseProcessor" where
  "renderSample crossfading crossfadeIncrement this =
     (let (whiteL, sL) = nextSignedFloat (stateL this);
          (whiteR, sR) = nextSignedFloat (stateR this);
          (pinkSampleL, pL) = pinkFilter (pinkL this) whiteL;
          (pinkSampleR, pR) = pinkFilter (pinkR this) whiteR;
          (brownSampleL, bL) = brownFilter (brownL this) whiteL;
          (brownSampleR, bR) = brownFilter (brownR this) whiteR;
          this = this\<lparr>stateL := sL, stateR := sR, pinkL := pL, pinkR := pR,
                       brownL := bL, brownR := bR\<rparr>
      in if crossfading
         then (let t = crossfadeProgress this;
                   angle = 0.5 * pi * t;
                   oldGain = cos angle;
                   newGain = sin angle;
                   oldL = pick (currentMode this) pinkSampleL brownSampleL;
                   oldR = pick (currentMode this) pinkSampleR brownSampleR;
                   newL = pick (targetMode this) pinkSampleL brownSampleL;
                   newR = pick (targetMode this) pinkSampleR brownSampleR;
                   sampleL = oldGain * oldL + newGain * newL;
                   sampleR = oldGain * oldR + newGain * newR;
                   this = this\<lparr>crossfadeProgress := crossfadeProgress this + crossfadeIncrement\<rparr>;
                   this = this\<lparr>crossfadeSamplesRemaining := crossfadeSamplesRemaining this - 1\<rparr>;
                   this = (if crossfadeSamplesRemaining this \<le> 0
                           then this\<lparr>currentMode := targetMode this, crossfadeProgress := 1\<rparr>
                           else this)
               in ((sampleL, sampleR), this))
         else ((pick (currentMode this) pinkSampleL brownSampleL,
                pick (currentMode this) pinkSampleR brownSampleR), this))"

text \<open>
  The sample pair of one mode at the next iteration: what the pink or the brown filters
  of the two channels return for the white samples drawn next.
\<close>

definition modeSamples :: "NoiseProcessor \<Rightarrow> Mode \<Rightarrow> real \<times> real" where
  "modeSamples this mode =
     (let whiteL = fst (nextSignedFloat (stateL this));
          whiteR = fst (nextSignedFloat (stateR this))
      in (pick mode (fst (pinkFilter (pinkL this) whiteL)) (fst (brownFilter (brownL this) whiteL)),
          pick mode (fst (pinkFilter (pinkR this) whiteR)) (fst (brownFilter (brownR this) whiteR))))"

fun renderLoop ::
  "nat \<Rightarrow> bool \<Rightarrow> real \<Rightarrow> NoiseProcessor \<Rightarrow> (real \<times> real) list \<times> NoiseProcessor" where
  "renderLoop 0 crossfading crossfadeIncrement this = ([], this)"
| "renderLoop (Suc n) crossfading crossfadeIncrement this =
     (let (x, this) = renderSample crossfading crossfadeIncrement this;
          (xs, this) = renderLoop n crossfading crossfadeIncrement this
      in (x # xs, this))"

definition renderBlock :: "nat \<Rightarrow> NoiseProcessor \<Rightarrow> (real \<times> real) list \<times> NoiseProcessor" where
  "renderBlock blockSize this =
     (let crossfading = crossfadeSamplesRemaining this > 0;
          crossfadeIncrement = (if crossfading then 1 / real_of_int (crossfadeSamplesRemaining this) else 0)
      in renderLoop blockSize crossfading crossfadeIncrement this)"

text \<open>
  \<open>process\<close>. \<open>outputs\<close> gives, for every output, the lengths of its channel buffers.
  The result is the messages posted, the samples written to \<open>outL[i]\<close> and \<open>outR[i]\<close>
  for \<open>i\<close> below the block size, and the processor afterwards. Without a first output
  or without two channels the call returns at once.
\<close>

definition process ::
  "nat list list \<Rightarrow> NoiseProcessor \<Rightarrow> PortMessage list \<times> (real \<times> real) list \<times> NoiseProcessor" where
  "process outputs this =
     (case outputs of
        [] \<Rightarrow> ([], [], this)
      | output # _ \<Rightarrow>
          (case output of
             outL # outR # _ \<Rightarrow>
               (let blockSize = outL;
                    (posted, this) = requestSeed blockSize this;
                    this = mixQueuedSeed this;
                    (samples, this) = renderBlock blockSize this
                in (posted, samples, this))
           | _ \<Rightarrow> ([], [], this)))"

text \<open>A stereo render quantum of \<open>n\<close> frames, and a run of such blocks without messages.\<close>

definition stereo :: "nat \<Rightarrow> nat list list" where
  "stereo n = [[n, n]]"

fun processBlocks :: "nat list \<Rightarrow> NoiseProcessor \<Rightarrow> PortMessage list list \<times> NoiseProcessor" where
  "processBlocks [] this = ([], this)"
| "processBlocks (n # ns) this =
     (case process (stereo n) this of
        (posted, _, this) \<Rightarrow>
          (case processBlocks ns this of (ps, this) \<Rightarrow> (posted # ps, this)))"

section \<open>The entropy pool (EntropyRng.ts)\<close>

definition POOL_SIZE :: nat where
  "POOL_SIZE = 8"

definition imul32 :: "u32 \<Rightarrow> u32 \<Rightarrow> u32" where
  "imul32 a c = a * c"

definition rotl32 :: "u32 \<Rightarrow> nat \<Rightarrow> u32" where
  "rotl32 x k = push_bit (k mod 32) x OR drop_bit ((32 - k) mod 32) x"

text \<open>A read outside the pool is \<open>undefined\<close>, and the function returns at once.\<close>

definition mixWord :: "u32 list \<Rightarrow> u32 \<Rightarrow> nat \<Rightarrow> u32 list" where
  "mixWord pool word index =
     (if index < length pool
      then (let poolVal = pool ! index;
                mixed = poolVal XOR rotl32 word 13
            in pool[index := imul32 mixed 0x9e3779b9 XOR rotl32 mixed 17])
      else pool)"

record EntropyRng =
  pool :: "u32 list"
  counter :: nat
  stirIndex :: nat

text \<open>
  The constructor allocates \<open>POOL_SIZE\<close> words and has \<open>crypto.getRandomValues\<close>
  fill them: \<open>random i\<close> is the word it puts at index \<open>i\<close>.
\<close>

definition newEntropyRng :: "(nat \<Rightarrow> u32) \<Rightarrow> EntropyRng" where
  "newEntropyRng random = \<lparr>pool = map random [0..<POOL_SIZE], counter = 0, stirIndex = 0\<rparr>"

text \<open>The specification's wording of the 32-bit multiplication and rotation.\<close>

definition imul32_spec :: "nat \<Rightarrow> nat \<Rightarrow> nat" where
  "imul32_spec a c = (a * c) mod 2 ^ 32"

text \<open>\<open>word >>> 0\<close> on an integer is its residue modulo \<open>2 ^ 32\<close>.\<close>

definition stir :: "EntropyRng \<Rightarrow> int \<Rightarrow> EntropyRng" where
  "stir this word =
     (let this = this\<lparr>pool := mixWord (pool this) (word_of_int word) (stirIndex this)\<rparr>
      in this\<lparr>stirIndex := (stirIndex this + 1) mod POOL_SIZE\<rparr>)"

section \<open>Runs of the processor\<close>

text \<open>
  What happens to a processor: a message arrives on its port, or the host calls
  \<open>process\<close>. Every state the processor can be in is that of a run from the constructor.
\<close>

datatype Event = Message WorkletMessage | Render "nat list list"

fun step :: "real \<Rightarrow> NoiseProcessor \<Rightarrow> Event \<Rightarrow> NoiseProcessor" where
  "step sampleRate this (Message msg) = handleMessage sampleRate this msg"
| "step sampleRate this (Render outputs) = snd (snd (process outputs this))"

definition runEvents :: "real \<Rightarrow> Event list \<Rightarrow> NoiseProcessor \<Rightarrow> NoiseProcessor" where
  "runEvents sampleRate events this = foldl (step sampleRate) this events"

text \<open>The four crossfade fields.\<close>

definition crossfadeState :: "NoiseProcessor \<Rightarrow> Mode \<times> Mode \<times> real \<times> int" where
  "crossfadeState this =
     (currentMode this, targetMode this, crossfadeProgress this, crossfadeSamplesRemaining this)"

text \<open>What the constructor computes and nothing is meant to change afterwards.\<close>

definition constants ::
  "NoiseProcessor \<Rightarrow> (real \<times> int) \<times> (real \<times> real \<times> real) \<times> (real \<times> real \<times> real)" where
  "constants this =
     ((crossfadeDuration this, seedRequestThreshold this),
      (decay (brownL this), scale (brownL this), gain (brownL this)),
      (decay (brownR this), scale (brownR this), gain (brownR this)))"

section \<open>The specification's wording of the entropy mixing\<close>

text \<open>
  Word \<open>k\<close> of a batch goes to state field \<open>k mod 4\<close>, rotated left by \<open>0\<close>, \<open>5\<close>,
  \<open>13\<close> or \<open>21\<close> bits. \<open>injected i words j\<close> is all that field \<open>j\<close> receives from
  \<open>words\<close> when the first of them has index \<open>i\<close>.
\<close>

definition rotation :: "nat \<Rightarrow> nat" where
  "rotation j = [0, 5, 13, 21] ! j"

definition xorAll :: "u32 list \<Rightarrow> u32" where
  "xorAll ws = foldr (XOR) ws 0"

definition injected :: "nat \<Rightarrow> u32 list \<Rightarrow> nat \<Rightarrow> u32" where
  "injected i words j =
     xorAll (map (\<lambda>k. rotl (words ! k) (rotation j))
                 (filter (\<lambda>k. (i + k) mod 4 = j) [0..<length words]))"

section \<open>The generator\<close>

lemma drop_bit_unat_less: "drop_bit n (unat (x::u32)) < 2 ^ 32"
proof -
  have "drop_bit n (unat x) \<le> unat x" by (simp add: drop_bit_eq_div)
  also have "unat x < 2 ^ 32" using unsigned_less[of x] by simp
  finally show ?thesis .
qed

lemma unat_rotl:
  assumes "0 < k" "k < 32"
  shows "unat (rotl x k) = rotl_spec (unat x) k"
proof -
  have "unat (rotl x k) = take_bit 32 (push_bit k (unat x)) OR drop_bit (32 - k) (unat x)"
    using assms by (simp add: rotl_def unsigned_or_eq unsigned_push_bit_eq unat_drop_bit_eq)
  also have "\<dots> = take_bit 32 (push_bit k (unat x) OR drop_bit (32 - k) (unat x))"
    by (simp only: take_bit_or take_bit_nat_eq_self [OF drop_bit_unat_less])
  also have "\<dots> = rotl_spec (unat x) k"
    by (simp only: rotl_spec_def take_bit_eq_mod push_bit_eq_mult drop_bit_eq_div)
  finally show ?thesis .
qed

lemma rotl_0: "rotl x 0 = x"
  by (simp add: rotl_def)

lemma xoshiroNext_refines:
  "(case xoshiroNext state of (r, state') \<Rightarrow> (unat r, words_of state')) =
     xoshiro_spec (words_of state)"
proof -
  have t: "unat (push_bit 9 (s1 state)) = (unat (s1 state) * 2 ^ 9) mod 2 ^ 32"
    by (simp add: push_bit_eq_mult unat_word_ariths)
  have s: "unat (s0 state + s3 state) = (unat (s0 state) + unat (s3 state)) mod 2 ^ 32"
    by (simp add: unat_word_ariths)
  have r: "unat (rotl (s0 state + s3 state) 7 + s0 state) =
      (rotl_spec ((unat (s0 state) + unat (s3 state)) mod 2 ^ 32) 7 + unat (s0 state)) mod 2 ^ 32"
    by (simp only: unat_word_ariths(1) unat_rotl s) simp
  show ?thesis
    unfolding xoshiroNext_def xoshiro_spec_def words_of_def Let_def
    by (simp add: unsigned_xor_eq unat_rotl t r del: One_nat_def)
qed

lemma nextSignedFloat_range:
  "- 1 \<le> fst (nextSignedFloat state) \<and> fst (nextSignedFloat state) < 1"
proof -
  obtain r st where x: "xoshiroNext state = (r, st)" by (cases "xoshiroNext state")
  have "unat r < 2 ^ 32" using unsigned_less[of r] by simp
  then have "real (unat r) < real (2 ^ 32)" by (rule of_nat_less_iff [THEN iffD2])
  then show ?thesis by (simp add: nextSignedFloat_def x del: of_nat_unat)
qed

lemma nextSignedFloat_state: "snd (nextSignedFloat state) = snd (xoshiroNext state)"
  by (simp add: nextSignedFloat_def split_beta)

lemma xoshiroRun_outputs:
  "fst (xoshiroRun n state) = map (\<lambda>k. fst (xoshiroNext (advance k state))) [0..<n]"
proof (induction n arbitrary: state)
  case 0
  show ?case by simp
next
  case (Suc n)
  have "[0..<Suc n] = 0 # map Suc [0..<n]"
    by (simp only: upt_conv_Cons [OF zero_less_Suc] map_Suc_upt)
  then show ?case using Suc.IH [of "snd (xoshiroNext state)"]
    by (simp add: split_beta comp_def del: upt_Suc)
qed

lemma xoshiroRun_state: "snd (xoshiroRun n state) = advance n state"
  by (induction n arbitrary: state) (simp_all add: split_beta)

text \<open>
  C3. One step of the generator, read as natural numbers, is the step of the
  specification: the result is \<open>(rotl((s0 + s3) mod 2^32, 7) + s0) mod 2^32\<close> and the
  state is updated by the shift, the five exclusive ors and the rotation by 11, with
  \<open>rotl(x, k) = ((x << k) | (x >> (32 - k))) mod 2^32\<close>. The sample is
  \<open>result / 2^32 * 2 - 1\<close> and lies in \<open>[-1, 1)\<close>. The outputs of \<open>n\<close> calls and
  the state they leave are functions of the initial state alone: output \<open>k\<close> is the result
  of the step taken from the state advanced \<open>k\<close> times.
\<close>

theorem C3_xoshiro_step:
  "(case xoshiroNext state of (r, state') \<Rightarrow> (unat r, words_of state')) =
     xoshiro_spec (words_of state)
   \<and> nextSignedFloat state =
     (real (unat (fst (xoshiroNext state))) / 2 ^ 32 * 2 - 1, snd (xoshiroNext state))
   \<and> - 1 \<le> fst (nextSignedFloat state) \<and> fst (nextSignedFloat state) < 1
   \<and> xoshiroRun n state =
     (map (\<lambda>k. fst (xoshiroNext (advance k state))) [0..<n], advance n state)"
proof -
  have "nextSignedFloat state =
     (real (unat (fst (xoshiroNext state))) / 2 ^ 32 * 2 - 1, snd (xoshiroNext state))"
    by (simp add: nextSignedFloat_def split_beta)
  moreover have "xoshiroRun n state =
     (map (\<lambda>k. fst (xoshiroNext (advance k state))) [0..<n], advance n state)"
    using xoshiroRun_outputs [of n state] xoshiroRun_state [of n state]
    by (simp add: prod_eq_iff)
  ultimately show ?thesis
    using xoshiroNext_refines [of state] nextSignedFloat_range [of state] by blast
qed

section \<open>Entropy mixing\<close>

lemma injected_Nil: "injected i [] j = 0"
  by (simp add: injected_def xorAll_def)

lemma injected_Cons:
  "injected i (w # ws) j =
     (if i mod 4 = j then rotl w (rotation j) XOR injected (Suc i) ws j else injected (Suc i) ws j)"
proof -
  have u: "[0..<length (w # ws)] = 0 # map Suc [0..<length ws]"
    by (simp only: list.size upt_conv_Cons [OF zero_less_Suc] map_Suc_upt add_Suc_right add_0_right)
  show ?thesis
    unfolding injected_def u
    by (simp add: filter_map comp_def xorAll_def)
qed

lemma mixWords_fields:
  "mixWords i words state =
     state\<lparr>s0 := s0 state XOR injected i words 0,
           s1 := s1 state XOR injected i words 1,
           s2 := s2 state XOR injected i words 2,
           s3 := s3 state XOR injected i words 3\<rparr>"
proof (induction "words" arbitrary: i state)
  case Nil
  show ?case by (simp add: injected_Nil)
next
  case (Cons w ws)
  have "i mod 4 = 0 \<or> i mod 4 = 1 \<or> i mod 4 = 2 \<or> i mod 4 = 3" by arith
  then show ?case
    by (auto simp: Cons.IH injected_Cons rotation_def rotl_0 xor.assoc xor.left_commute)
qed

lemma subarray_0: "subarray a 0 n = take n a"
  by (simp add: subarray_def)

section \<open>The parts of process\<close>

lemma process_stereo:
  "process ((outL # outR # chans) # outs) this =
     (fst (requestSeed outL this),
      renderBlock outL (mixQueuedSeed (snd (requestSeed outL this))))"
  by (simp add: process_def Let_def split_beta)

lemma process_no_output: "process [] this = ([], [], this)"
  and process_no_channel: "process ([] # outs) this = ([], [], this)"
  and process_mono: "process ([outL] # outs) this = ([], [], this)"
  by (simp_all add: process_def)

lemma requestSeed_state:
  "snd (requestSeed blockSize this) =
     this\<lparr>samplesSinceLastSeed :=
       (if samplesSinceLastSeed this + int blockSize \<ge> seedRequestThreshold this
           \<and> length (seedQueue this) < 2
        then 0 else samplesSinceLastSeed this + int blockSize)\<rparr>"
  by (simp add: requestSeed_def Let_def)

lemma requestSeed_posted:
  "fst (requestSeed blockSize this) =
     (if samplesSinceLastSeed this + int blockSize \<ge> seedRequestThreshold this
         \<and> length (seedQueue this) < 2
      then [NeedSeed] else [])"
  by (simp add: requestSeed_def Let_def)

lemma mixQueuedSeed_state:
  "mixQueuedSeed this =
     (case seedQueue this of
        [] \<Rightarrow> this
      | seed # rest \<Rightarrow>
          this\<lparr>seedQueue := rest,
               stateL := mixEntropy (stateL this) (take (length seed div 2) seed),
               stateR := mixEntropy (stateR this) (drop (length seed div 2) seed)\<rparr>)"
  by (simp add: mixQueuedSeed_def Let_def subarray_0 split: list.split)

lemma renderSample_state:
  "snd (renderSample c inc this) =
     this\<lparr>stateL := snd (nextSignedFloat (stateL this)),
          stateR := snd (nextSignedFloat (stateR this)),
          pinkL := snd (pinkFilter (pinkL this) (fst (nextSignedFloat (stateL this)))),
          pinkR := snd (pinkFilter (pinkR this) (fst (nextSignedFloat (stateR this)))),
          brownL := snd (brownFilter (brownL this) (fst (nextSignedFloat (stateL this)))),
          brownR := snd (brownFilter (brownR this) (fst (nextSignedFloat (stateR this)))),
          currentMode := (if c \<and> crossfadeSamplesRemaining this - 1 \<le> 0
                          then targetMode this else currentMode this),
          crossfadeProgress := (if c then (if crossfadeSamplesRemaining this - 1 \<le> 0 then 1
                                           else crossfadeProgress this + inc)
                                else crossfadeProgress this),
          crossfadeSamplesRemaining := (if c then crossfadeSamplesRemaining this - 1
                                        else crossfadeSamplesRemaining this)\<rparr>"
  by (simp add: renderSample_def Let_def split_beta)

lemma renderLoop_Suc_state:
  "snd (renderLoop (Suc n) c inc this) = snd (renderLoop n c inc (snd (renderSample c inc this)))"
  by (simp add: split_beta)

lemma renderLoop_generators:
  "stateL (snd (renderLoop n c inc this)) = advance n (stateL this)
   \<and> stateR (snd (renderLoop n c inc this)) = advance n (stateR this)"
  by (induction n arbitrary: this)
     (simp_all add: renderLoop_Suc_state renderSample_state nextSignedFloat_state
        del: renderLoop.simps(2))

lemma renderLoop_frame:
  "seedQueue (snd (renderLoop n c inc this)) = seedQueue this
   \<and> samplesSinceLastSeed (snd (renderLoop n c inc this)) = samplesSinceLastSeed this
   \<and> seedRequestThreshold (snd (renderLoop n c inc this)) = seedRequestThreshold this
   \<and> crossfadeDuration (snd (renderLoop n c inc this)) = crossfadeDuration this
   \<and> initialized (snd (renderLoop n c inc this)) = initialized this
   \<and> targetMode (snd (renderLoop n c inc this)) = targetMode this"
  by (induction n arbitrary: this)
     (simp_all add: renderLoop_Suc_state renderSample_state del: renderLoop.simps(2))

lemma renderBlock_frame:
  "seedQueue (snd (renderBlock n this)) = seedQueue this
   \<and> samplesSinceLastSeed (snd (renderBlock n this)) = samplesSinceLastSeed this
   \<and> seedRequestThreshold (snd (renderBlock n this)) = seedRequestThreshold this
   \<and> crossfadeDuration (snd (renderBlock n this)) = crossfadeDuration this
   \<and> initialized (snd (renderBlock n this)) = initialized this
   \<and> targetMode (snd (renderBlock n this)) = targetMode this
   \<and> stateL (snd (renderBlock n this)) = advance n (stateL this)
   \<and> stateR (snd (renderBlock n this)) = advance n (stateR this)"
  unfolding renderBlock_def Let_def using renderLoop_frame renderLoop_generators by simp

lemma process_cases:
  "process outputs this = ([], [], this)
   \<or> (\<exists>outL outR chans outs. outputs = (outL # outR # chans) # outs)"
  by (auto simp: process_def split: list.split)

text \<open>
  C4. A call of \<open>process\<close> takes at most one batch from the queue, whatever the queue
  holds: with a stereo output the queue afterwards is its tail, otherwise it is untouched.
  The batch taken is split at \<open>floor(n / 2)\<close>: the words before go to the left
  generator, the others to the right one. Mixing a batch into a generator XORs word \<open>k\<close>
  into field \<open>k mod 4\<close>, rotated left by 0, 5, 13 or 21 bits, and then steps the
  generator 8 times, whatever the batch. The block's samples are drawn after that. The
  rotation by 0 leaves the word as it is, and the rotations by 5, 13 and 21 are those of
  the specification, \<open>((x << k) | (x >> (32 - k))) mod 2^32\<close>.
\<close>

theorem C4_entropy_mixing:
  "mixEntropy state words =
     advance 8 (state\<lparr>s0 := s0 state XOR injected 0 words 0,
                      s1 := s1 state XOR injected 0 words 1,
                      s2 := s2 state XOR injected 0 words 2,
                      s3 := s3 state XOR injected 0 words 3\<rparr>)
   \<and> mixQueuedSeed this =
     (case seedQueue this of
        [] \<Rightarrow> this
      | seed # rest \<Rightarrow>
          this\<lparr>seedQueue := rest,
               stateL := mixEntropy (stateL this) (take (length seed div 2) seed),
               stateR := mixEntropy (stateR this) (drop (length seed div 2) seed)\<rparr>)
   \<and> length (seedQueue this) - 1 \<le> length (seedQueue (snd (snd (process outputs this))))
   \<and> seedQueue (snd (snd (process ((outL # outR # chans) # outs) this))) = tl (seedQueue this)
   \<and> stateL (snd (snd (process ((outL # outR # chans) # outs) this))) =
       advance outL (stateL (mixQueuedSeed this))
   \<and> stateR (snd (snd (process ((outL # outR # chans) # outs) this))) =
       advance outL (stateR (mixQueuedSeed this))
   \<and> rotation 0 = 0 \<and> rotation 1 = 5 \<and> rotation 2 = 13 \<and> rotation 3 = 21
   \<and> rotl w 0 = w
   \<and> unat (rotl w 5) = rotl_spec (unat w) 5
   \<and> unat (rotl w 13) = rotl_spec (unat w) 13
   \<and> unat (rotl w 21) = rotl_spec (unat w) 21"
proof -
  let ?a = "snd (requestSeed outL this)"
  have q: "seedQueue ?a = seedQueue this" "stateL ?a = stateL this" "stateR ?a = stateR this"
    by (simp_all add: requestSeed_state)
  have m: "seedQueue (mixQueuedSeed ?a) = tl (seedQueue this)"
    "stateL (mixQueuedSeed ?a) = stateL (mixQueuedSeed this)"
    "stateR (mixQueuedSeed ?a) = stateR (mixQueuedSeed this)"
    by (simp_all add: mixQueuedSeed_state q split: list.split)
  have "length (seedQueue this) - 1 \<le> length (seedQueue (snd (snd (process outputs this))))"
    using process_cases [of outputs this]
  proof (elim disjE exE)
    assume "process outputs this = ([], [], this)"
    then show ?thesis by simp
  next
    fix l r cs os
    let ?b = "snd (requestSeed l this)"
    assume o: "outputs = (l # r # cs) # os"
    have "seedQueue (mixQueuedSeed ?b) = tl (seedQueue this)"
      by (simp add: mixQueuedSeed_state requestSeed_state split: list.split)
    then show ?thesis by (simp add: o process_stereo renderBlock_frame)
  qed
  moreover have "rotation 0 = 0 \<and> rotation 1 = 5 \<and> rotation 2 = 13 \<and> rotation 3 = 21"
    by (simp add: rotation_def)
  moreover have "unat (rotl w 5) = rotl_spec (unat w) 5
      \<and> unat (rotl w 13) = rotl_spec (unat w) 13
      \<and> unat (rotl w 21) = rotl_spec (unat w) 21"
    by (simp add: unat_rotl)
  ultimately show ?thesis
    by (simp add: mixEntropy_def mixWords_fields [of 0] mixQueuedSeed_state [of this]
        process_stereo renderBlock_frame m rotl_0)
qed

section \<open>The entropy pool\<close>

lemma unat_rotl32:
  assumes "0 < k" "k < 32"
  shows "unat (rotl32 x k) = rotl_spec (unat x) k"
  using unat_rotl [OF assms, of x] by (simp add: rotl_def rotl32_def)

lemma unat_imul32: "unat (imul32 a c) = imul32_spec (unat a) (unat c)"
  by (simp add: imul32_def imul32_spec_def unat_word_ariths)

lemma stir_pool_length: "length (pool (stir this word)) = length (pool this)"
  by (simp add: stir_def mixWord_def Let_def)

lemma stir_index: "stirIndex (stir this word) = (stirIndex this + 1) mod POOL_SIZE"
  by (simp add: stir_def Let_def)

lemma stirs_invariant:
  "length (pool (foldl stir (newEntropyRng random) ws)) = POOL_SIZE
   \<and> stirIndex (foldl stir (newEntropyRng random) ws) = length ws mod POOL_SIZE"
proof (induction ws rule: rev_induct)
  case Nil
  show ?case by (simp add: newEntropyRng_def POOL_SIZE_def)
next
  case (snoc w ws)
  then show ?case by (simp add: stir_pool_length stir_index mod_Suc_eq)
qed

text \<open>
  C9. In a pool of 8 words with the cursor inside it, \<open>stir\<close> of any number replaces
  the word under the cursor, \<open>slot\<close>, by
  \<open>imul32(m, 0x9e3779b9) XOR rotl32(m, 17)\<close> with \<open>m = slot XOR rotl32(w, 13)\<close>,
  \<open>w\<close> being the number as a 32-bit word; the rotations and the multiplication are
  those of the specification, modulo \<open>2^32\<close>, and 13 and the multiplier are odd. No
  other slot changes, the pool keeps its size, and the cursor moves to the next index
  modulo 8. After any number of \<open>stir\<close>s from the constructor the pool has 8 words
  and the cursor is inside it.
\<close>

theorem C9_stir:
  "length (pool this) = POOL_SIZE \<Longrightarrow> stirIndex this < POOL_SIZE \<Longrightarrow>
     (let w = word_of_int word :: u32;
          m = pool this ! stirIndex this XOR rotl32 w 13
      in pool (stir this word) =
           (pool this)[stirIndex this := imul32 m 0x9e3779b9 XOR rotl32 m 17]
       \<and> pool (stir this word) ! stirIndex this = imul32 m 0x9e3779b9 XOR rotl32 m 17
       \<and> (\<forall>i. i \<noteq> stirIndex this \<longrightarrow> pool (stir this word) ! i = pool this ! i)
       \<and> length (pool (stir this word)) = POOL_SIZE
       \<and> stirIndex (stir this word) = (stirIndex this + 1) mod 8
       \<and> stirIndex (stir this word) < POOL_SIZE
       \<and> counter (stir this word) = counter this
       \<and> unat (rotl32 w 13) = rotl_spec (unat w) 13
       \<and> unat (rotl32 m 17) = rotl_spec (unat m) 17
       \<and> unat (imul32 m 0x9e3779b9) = imul32_spec (unat m) 0x9e3779b9
       \<and> odd (13 :: nat) \<and> odd (0x9e3779b9 :: nat)
       \<and> stirIndex (foldl stir (newEntropyRng random) ws) < POOL_SIZE
       \<and> length (pool (foldl stir (newEntropyRng random) ws)) = POOL_SIZE)"
proof -
  assume l: "length (pool this) = POOL_SIZE" and i: "stirIndex this < POOL_SIZE"
  have p: "pool (stir this word) =
      (pool this)[stirIndex this :=
         imul32 (pool this ! stirIndex this XOR rotl32 (word_of_int word) 13) 0x9e3779b9
         XOR rotl32 (pool this ! stirIndex this XOR rotl32 (word_of_int word) 13) 17]"
    using l i by (simp add: stir_def mixWord_def Let_def)
  have c: "counter (stir this word) = counter this"
    by (simp add: stir_def Let_def)
  have u: "unat (imul32 x 0x9e3779b9) = imul32_spec (unat x) 0x9e3779b9" for x
    using unat_imul32 [of x "0x9e3779b9"] by simp
  show ?thesis
    unfolding Let_def
    using l i stirs_invariant [of random ws]
    by (simp add: p c u stir_index unat_rotl32 POOL_SIZE_def)
qed

theorem C9_stir_witness:
  "length (pool \<lparr>pool = [1, 2, 3, 4, 5, 6, 7, 8], counter = 0, stirIndex = 7\<rparr>) = POOL_SIZE
   \<and> stirIndex \<lparr>pool = [1, 2, 3, 4, 5, 6, 7, 8], counter = 0, stirIndex = 7\<rparr> < POOL_SIZE
   \<and> stir \<lparr>pool = [1, 2, 3, 4, 5, 6, 7, 8], counter = 0, stirIndex = 7\<rparr> 1 =
       \<lparr>pool = [1, 2, 3, 4, 5, 6, 7, 0xa0e2edc8], counter = 0, stirIndex = 0\<rparr>"
  using C9_stir [of "\<lparr>pool = [1, 2, 3, 4, 5, 6, 7, 8], counter = 0, stirIndex = 7\<rparr>" 1 "\<lambda>i. 0" "[]"]
  by (simp add: POOL_SIZE_def Let_def imul32_def rotl32_def stir_def)

section \<open>Messages\<close>

lemma initState_four:
  "4 \<le> length seeds \<Longrightarrow>
     initState seeds = \<lparr>s0 = seeds ! 0, s1 = seeds ! 1, s2 = seeds ! 2, s3 = seeds ! 3\<rparr>"
  by (auto simp: initState_def seedAt_def)

lemma initial_seeds_accepted:
  assumes "\<not> initialized this" "8 \<le> length seeds"
  shows "handleMessage sampleRate this (InitialSeeds seeds) =
     this\<lparr>stateL := \<lparr>s0 = seeds ! 0, s1 = seeds ! 1, s2 = seeds ! 2, s3 = seeds ! 3\<rparr>,
          stateR := \<lparr>s0 = seeds ! 4, s1 = seeds ! 5, s2 = seeds ! 6, s3 = seeds ! 7\<rparr>,
          initialized := True\<rparr>"
proof -
  have "initState (subarray seeds 0 4) = \<lparr>s0 = seeds ! 0, s1 = seeds ! 1, s2 = seeds ! 2, s3 = seeds ! 3\<rparr>"
    using assms(2) by (simp add: initState_four subarray_def)
  moreover have "initState (subarray seeds 4 8) = \<lparr>s0 = seeds ! 4, s1 = seeds ! 5, s2 = seeds ! 6, s3 = seeds ! 7\<rparr>"
    using assms(2) by (simp add: initState_four subarray_def)
  ultimately show ?thesis using assms by simp
qed

lemma brownFilter_constants:
  "decay (snd (brownFilter brown white)) = decay brown
   \<and> scale (snd (brownFilter brown white)) = scale brown
   \<and> gain (snd (brownFilter brown white)) = gain brown"
  by (simp add: brownFilter_def Let_def)

lemma renderLoop_brown_constants:
  "decay (brownL (snd (renderLoop n c inc this))) = decay (brownL this)
   \<and> scale (brownL (snd (renderLoop n c inc this))) = scale (brownL this)
   \<and> gain (brownL (snd (renderLoop n c inc this))) = gain (brownL this)
   \<and> decay (brownR (snd (renderLoop n c inc this))) = decay (brownR this)
   \<and> scale (brownR (snd (renderLoop n c inc this))) = scale (brownR this)
   \<and> gain (brownR (snd (renderLoop n c inc this))) = gain (brownR this)"
  by (induction n arbitrary: this)
     (simp_all add: renderLoop_Suc_state renderSample_state brownFilter_constants
        del: renderLoop.simps(2))

lemma handleMessage_constants: "constants (handleMessage sampleRate this msg) = constants this"
  by (cases msg) (simp_all add: constants_def Let_def)

lemma handleMessage_initialized:
  "initialized this \<Longrightarrow> initialized (handleMessage sampleRate this msg)"
  by (cases msg) (simp_all add: Let_def)

lemma process_constants: "constants (snd (snd (process outputs this))) = constants this"
  using process_cases [of outputs this]
proof (elim disjE exE)
  assume "process outputs this = ([], [], this)"
  then show ?thesis by simp
next
  fix l r cs os
  assume o: "outputs = (l # r # cs) # os"
  have "constants (mixQueuedSeed (snd (requestSeed l this))) = constants this"
    by (simp add: constants_def mixQueuedSeed_state requestSeed_state split: list.split)
  then show ?thesis
    using renderLoop_brown_constants renderLoop_frame
    by (simp add: o process_stereo renderBlock_def Let_def constants_def)
qed

lemma process_initialized: "initialized (snd (snd (process outputs this))) = initialized this"
  using process_cases [of outputs this]
proof (elim disjE exE)
  assume "process outputs this = ([], [], this)"
  then show ?thesis by simp
next
  fix l r cs os
  assume o: "outputs = (l # r # cs) # os"
  have "initialized (mixQueuedSeed (snd (requestSeed l this))) = initialized this"
    by (simp add: mixQueuedSeed_state requestSeed_state split: list.split)
  then show ?thesis
    by (simp add: o process_stereo renderBlock_frame)
qed

lemma step_constants: "constants (step sampleRate this e) = constants this"
  by (cases e) (simp_all add: handleMessage_constants process_constants)

lemma runEvents_constants: "constants (runEvents sampleRate events this) = constants this"
  unfolding runEvents_def
  by (induction events arbitrary: this) (simp_all add: step_constants)

lemma runEvents_initialized:
  "initialized this \<Longrightarrow> initialized (runEvents sampleRate events this)"
  unfolding runEvents_def
proof (induction events arbitrary: this)
  case Nil
  then show ?case by simp
next
  case (Cons e es)
  have "initialized (step sampleRate this e)"
    using Cons.prems by (cases e) (simp_all add: handleMessage_initialized process_initialized)
  then show ?case using Cons.IH by simp
qed

lemma constructed_constants:
  "constants (newNoiseProcessor sampleRate fallbackSeeds) =
     ((0.05, \<lfloor>sampleRate * 0.5\<rfloor>),
      (decay (initBrownState sampleRate), scale (initBrownState sampleRate), gain (initBrownState sampleRate)),
      (decay (initBrownState sampleRate), scale (initBrownState sampleRate), gain (initBrownState sampleRate)))"
  by (simp add: constants_def newNoiseProcessor_def)

lemma reachable_crossfadeDuration:
  "crossfadeDuration (runEvents sampleRate events (newNoiseProcessor sampleRate fallbackSeeds)) = 0.05"
  using runEvents_constants [of sampleRate events "newNoiseProcessor sampleRate fallbackSeeds"]
  by (simp add: constructed_constants) (simp add: constants_def)

text \<open>
  C10. An \<open>entropy-seeds\<close> message appends its batch to the seed queue and changes no
  other field. The mixing at the start of a block changes the queue and the two generator
  states, nothing else: the pink and brown filter states, with the brown constants, and
  the four crossfade fields are what they were.
\<close>

theorem C10_mixing_frame:
  "handleMessage sampleRate this (EntropySeeds seeds) = this\<lparr>seedQueue := seedQueue this @ [seeds]\<rparr>
   \<and> mixQueuedSeed this =
       this\<lparr>seedQueue := tl (seedQueue this),
            stateL := stateL (mixQueuedSeed this),
            stateR := stateR (mixQueuedSeed this)\<rparr>
   \<and> pinkL (mixQueuedSeed this) = pinkL this
   \<and> pinkR (mixQueuedSeed this) = pinkR this
   \<and> brownL (mixQueuedSeed this) = brownL this
   \<and> brownR (mixQueuedSeed this) = brownR this
   \<and> currentMode (mixQueuedSeed this) = currentMode this
   \<and> targetMode (mixQueuedSeed this) = targetMode this
   \<and> crossfadeProgress (mixQueuedSeed this) = crossfadeProgress this
   \<and> crossfadeSamplesRemaining (mixQueuedSeed this) = crossfadeSamplesRemaining this"
  by (simp add: mixQueuedSeed_state split: list.split)

lemma xoshiroNext_fields:
  "snd (xoshiroNext \<lparr>s0 = a, s1 = c, s2 = d, s3 = e\<rparr>) =
     \<lparr>s0 = a XOR (e XOR c), s1 = c XOR (d XOR a), s2 = (d XOR a) XOR push_bit 9 c,
      s3 = rotl (e XOR c) 11\<rparr>"
  by (simp add: xoshiroNext_def)

lemma advance_8:
  "advance 8 state =
     snd (xoshiroNext (snd (xoshiroNext (snd (xoshiroNext (snd (xoshiroNext
    (snd (xoshiroNext (snd (xoshiroNext (snd (xoshiroNext (snd (xoshiroNext state)))))))))))))))"
  by (simp add: eval_nat_numeral)

text \<open>
  C5. The first \<open>initial-seeds\<close> message with 8 words or more that reaches a processor
  not yet keyed puts words 0 to 3 in the left generator and words 4 to 7 in the right one,
  and keys the processor; it stays keyed whatever happens next, and an
  \<open>initial-seeds\<close> message to a keyed processor, or one with fewer than 8 words, changes
  nothing. An \<open>entropy-seeds\<close> batch has no minimum size: whatever its length, the
  empty one included, it is appended to the seed queue, so the state does change.
\<close>

theorem C5_seed_messages:
  "(\<not> initialized this \<and> 8 \<le> length seeds \<longrightarrow>
      handleMessage sampleRate this (InitialSeeds seeds) =
        this\<lparr>stateL := \<lparr>s0 = seeds ! 0, s1 = seeds ! 1, s2 = seeds ! 2, s3 = seeds ! 3\<rparr>,
             stateR := \<lparr>s0 = seeds ! 4, s1 = seeds ! 5, s2 = seeds ! 6, s3 = seeds ! 7\<rparr>,
             initialized := True\<rparr>)
   \<and> (initialized this \<or> length seeds < 8 \<longrightarrow>
        handleMessage sampleRate this (InitialSeeds seeds) = this)
   \<and> (initialized this \<longrightarrow>
        handleMessage sampleRate (runEvents sampleRate events this) (InitialSeeds seeds) =
          runEvents sampleRate events this)
   \<and> \<not> initialized (newNoiseProcessor sampleRate fallbackSeeds)
   \<and> handleMessage sampleRate this (EntropySeeds seeds) =
        this\<lparr>seedQueue := seedQueue this @ [seeds]\<rparr>
   \<and> handleMessage sampleRate this (EntropySeeds seeds) \<noteq> this"
proof -
  have a: "\<not> initialized this \<and> 8 \<le> length seeds \<longrightarrow>
      handleMessage sampleRate this (InitialSeeds seeds) =
        this\<lparr>stateL := \<lparr>s0 = seeds ! 0, s1 = seeds ! 1, s2 = seeds ! 2, s3 = seeds ! 3\<rparr>,
             stateR := \<lparr>s0 = seeds ! 4, s1 = seeds ! 5, s2 = seeds ! 6, s3 = seeds ! 7\<rparr>,
             initialized := True\<rparr>"
    using initial_seeds_accepted [of this seeds sampleRate] by blast
  have b: "initialized this \<or> length seeds < 8 \<longrightarrow>
        handleMessage sampleRate this (InitialSeeds seeds) = this"
    by auto
  have c: "initialized this \<longrightarrow>
        handleMessage sampleRate (runEvents sampleRate events this) (InitialSeeds seeds) =
          runEvents sampleRate events this"
    using runEvents_initialized [of this sampleRate events] by simp
  have d: "\<not> initialized (newNoiseProcessor sampleRate fallbackSeeds)"
    by (simp add: newNoiseProcessor_def)
  have e: "handleMessage sampleRate this (EntropySeeds seeds) \<noteq> this"
  proof
    assume "handleMessage sampleRate this (EntropySeeds seeds) = this"
    then have "seedQueue (handleMessage sampleRate this (EntropySeeds seeds)) = seedQueue this"
      by simp
    then show False by simp
  qed
  from a b c d e show ?thesis by simp
qed

theorem C5_seed_messages_witness:
  "\<not> initialized (newNoiseProcessor 48000 [1, 2, 3, 4, 5, 6, 7, 8])
   \<and> 8 \<le> length [11, 12, 13, 14, 15, 16, 17, 18 :: u32]
   \<and> handleMessage 48000 (newNoiseProcessor 48000 [1, 2, 3, 4, 5, 6, 7, 8])
        (InitialSeeds [11, 12, 13, 14, 15, 16, 17, 18]) =
       (newNoiseProcessor 48000 [1, 2, 3, 4, 5, 6, 7, 8])
         \<lparr>stateL := \<lparr>s0 = 11, s1 = 12, s2 = 13, s3 = 14\<rparr>,
          stateR := \<lparr>s0 = 15, s1 = 16, s2 = 17, s3 = 18\<rparr>,
          initialized := True\<rparr>
   \<and> length [11, 12, 13 :: u32] < 8
   \<and> handleMessage 48000 (newNoiseProcessor 48000 [1, 2, 3, 4, 5, 6, 7, 8])
        (InitialSeeds [11, 12, 13]) = newNoiseProcessor 48000 [1, 2, 3, 4, 5, 6, 7, 8]"
  using C5_seed_messages [of "newNoiseProcessor 48000 [1, 2, 3, 4, 5, 6, 7, 8]"
      "[11, 12, 13, 14, 15, 16, 17, 18]" 48000 "[]" "[]"]
    C5_seed_messages [of "newNoiseProcessor 48000 [1, 2, 3, 4, 5, 6, 7, 8]"
      "[11, 12, 13]" 48000 "[]" "[]"]
  by (simp add: newNoiseProcessor_def)

theorem C5_empty_batch_counterexample:
  "handleMessage 48000 (newNoiseProcessor 48000 [1, 2, 3, 4, 5, 6, 7, 8]) (EntropySeeds []) \<noteq>
     newNoiseProcessor 48000 [1, 2, 3, 4, 5, 6, 7, 8]
   \<and> seedQueue (newNoiseProcessor 48000 [1, 2, 3, 4, 5, 6, 7, 8]) = []
   \<and> seedQueue (handleMessage 48000 (newNoiseProcessor 48000 [1, 2, 3, 4, 5, 6, 7, 8])
        (EntropySeeds [])) = [[]]
   \<and> stateL (newNoiseProcessor 48000 [1, 2, 3, 4, 5, 6, 7, 8]) = \<lparr>s0 = 1, s1 = 2, s2 = 3, s3 = 4\<rparr>
   \<and> stateL (mixQueuedSeed (handleMessage 48000 (newNoiseProcessor 48000 [1, 2, 3, 4, 5, 6, 7, 8])
        (EntropySeeds []))) =
       \<lparr>s0 = 857776784, s1 = 3957087773, s2 = 2428778008, s3 = 3837013768\<rparr>"
proof -
  let ?p = "newNoiseProcessor 48000 [1, 2, 3, 4, 5, 6, 7, 8]"
  have q: "seedQueue (handleMessage 48000 ?p (EntropySeeds [])) = [[]]" "seedQueue ?p = []"
    by (simp_all add: newNoiseProcessor_def)
  have n: "handleMessage 48000 ?p (EntropySeeds []) \<noteq> ?p"
  proof
    assume "handleMessage 48000 ?p (EntropySeeds []) = ?p"
    then have "seedQueue (handleMessage 48000 ?p (EntropySeeds [])) = seedQueue ?p" by simp
    then show False by (simp add: newNoiseProcessor_def)
  qed
  have l: "stateL ?p = \<lparr>s0 = 1, s1 = 2, s2 = 3, s3 = 4\<rparr>"
    by (simp add: newNoiseProcessor_def initState_def seedAt_def subarray_def)
  have "stateL (mixQueuedSeed (handleMessage 48000 ?p (EntropySeeds []))) =
      advance 8 \<lparr>s0 = 1, s1 = 2, s2 = 3, s3 = 4\<rparr>"
    by (simp add: mixQueuedSeed_def newNoiseProcessor_def initState_def seedAt_def
        subarray_def mixEntropy_def Let_def)
  moreover have "advance 8 \<lparr>s0 = 1, s1 = 2, s2 = 3, s3 = 4\<rparr> =
      \<lparr>s0 = 857776784, s1 = 3957087773, s2 = 2428778008, s3 = 3837013768\<rparr>"
    by (simp add: advance_8 xoshiroNext_fields rotl_def)
  ultimately show ?thesis using q n l by simp
qed

section \<open>The brown filter\<close>

lemma brownFilter_accumulator:
  "b (snd (brownFilter brown white)) =
     max (- 1) (min 1 (decay brown * b brown + scale brown * white))"
  by (simp add: brownFilter_def Let_def max_def min_def)

lemma brownFilter_clamped: "clamped (snd (brownFilter brown white))"
  by (simp add: clamped_def brownFilter_accumulator)

lemma brownFilter_output:
  "fst (brownFilter brown white) = b (snd (brownFilter brown white)) * gain brown"
  by (simp add: brownFilter_def Let_def)

lemma brownStates_all:
  "list_all (\<lambda>s. clamped s \<and> decay s = decay brown \<and> scale s = scale brown \<and> gain s = gain brown)
     (brownStates brown whites)"
proof (induction whites arbitrary: brown)
  case Nil
  show ?case by simp
next
  case (Cons w ws)
  show ?case
    using Cons.IH [of "snd (brownFilter brown w)"]
    by (simp add: brownFilter_clamped brownFilter_constants)
qed

lemma brownStates_length: "length (brownStates brown whites) = length whites"
  by (induction whites arbitrary: brown) simp_all

lemma brownRun_outputs:
  "fst (brownRun brown whites) = map (\<lambda>s. b s * gain brown) (brownStates brown whites)"
proof (induction whites arbitrary: brown)
  case Nil
  show ?case by simp
next
  case (Cons w ws)
  show ?case
    using Cons.IH [of "snd (brownFilter brown w)"]
    by (simp add: split_beta brownFilter_output brownFilter_constants)
qed

lemma brownRun_state:
  "snd (brownRun brown whites) = (if whites = [] then brown else last (brownStates brown whites))"
proof (induction whites arbitrary: brown)
  case Nil
  show ?case by simp
next
  case (Cons w ws)
  show ?case
    using Cons.IH [of "snd (brownFilter brown w)"]
    by (cases ws) (simp_all add: split_beta)
qed

lemma initBrownState_fields:
  "initBrownState sampleRate =
     \<lparr>b = 0,
      decay = exp (- 1 / (sampleRate * 0.02)),
      scale = 1 - exp (- 1 / (sampleRate * 0.02)),
      gain = 0.5 * sqrt ((1 + exp (- 1 / (sampleRate * 0.02))) / (1 - exp (- 1 / (sampleRate * 0.02))))\<rparr>"
  by (simp add: initBrownState_def Let_def)

lemma renderLoop_clamped:
  "clamped (brownL this) \<and> clamped (brownR this) \<Longrightarrow>
     clamped (brownL (snd (renderLoop n c inc this))) \<and> clamped (brownR (snd (renderLoop n c inc this)))"
proof (induction n arbitrary: this)
  case 0
  then show ?case by simp
next
  case (Suc n)
  have "clamped (brownL (snd (renderSample c inc this))) \<and> clamped (brownR (snd (renderSample c inc this)))"
    by (simp add: renderSample_state brownFilter_clamped)
  from Suc.IH [OF this] show ?case
    by (simp only: renderLoop_Suc_state)
qed

lemma handleMessage_brown:
  "brownL (handleMessage sampleRate this msg) = brownL this
   \<and> brownR (handleMessage sampleRate this msg) = brownR this"
  by (cases msg) (simp_all add: Let_def)

lemma process_clamped:
  assumes "clamped (brownL this) \<and> clamped (brownR this)"
  shows "clamped (brownL (snd (snd (process outputs this))))
       \<and> clamped (brownR (snd (snd (process outputs this))))"
  using process_cases [of outputs this]
proof (elim disjE exE)
  assume "process outputs this = ([], [], this)"
  then show ?thesis using assms by simp
next
  fix l r cs os
  let ?m = "mixQueuedSeed (snd (requestSeed l this))"
  assume o: "outputs = (l # r # cs) # os"
  have "clamped (brownL ?m) \<and> clamped (brownR ?m)"
    using assms by (simp add: mixQueuedSeed_state requestSeed_state split: list.split)
  then show ?thesis
    using renderLoop_clamped by (simp add: o process_stereo renderBlock_def Let_def)
qed

lemma runEvents_clamped:
  "clamped (brownL this) \<and> clamped (brownR this) \<Longrightarrow>
     clamped (brownL (runEvents sampleRate events this))
   \<and> clamped (brownR (runEvents sampleRate events this))"
  unfolding runEvents_def
proof (induction events arbitrary: this)
  case Nil
  then show ?case by simp
next
  case (Cons e es)
  have "clamped (brownL (step sampleRate this e)) \<and> clamped (brownR (step sampleRate this e))"
    using Cons.prems process_clamped by (cases e) (simp_all add: handleMessage_brown)
  from Cons.IH [OF this] show ?case by simp
qed

lemma constructed_clamped:
  "clamped (brownL (newNoiseProcessor sampleRate fallbackSeeds))
   \<and> clamped (brownR (newNoiseProcessor sampleRate fallbackSeeds))"
  by (simp add: newNoiseProcessor_def initBrownState_fields clamped_def)

text \<open>
  C8. One update of the brown filter sets the accumulator to
  \<open>decay * b + scale * white\<close> clamped to \<open>[-1, 1]\<close>, returns the accumulator times the
  gain and leaves decay, scale and gain alone. So along any sequence of white samples,
  of any length, every accumulator lies in \<open>[-1, 1]\<close>, every output is the accumulator
  times the gain, and the three constants are those of the start. The constructor
  computes \<open>decay = exp(-1 / (sampleRate * 0.02))\<close>, \<open>scale = 1 - decay\<close> and
  \<open>gain = 0.5 * sqrt((1 + decay) / (1 - decay))\<close>, and in every state the processor
  reaches both channels still hold these three values, with accumulators in \<open>[-1, 1]\<close>.
\<close>

theorem C8_brown_filter:
  "b (snd (brownFilter brown white)) =
     max (- 1) (min 1 (decay brown * b brown + scale brown * white))
   \<and> - 1 \<le> b (snd (brownFilter brown white)) \<and> b (snd (brownFilter brown white)) \<le> 1
   \<and> fst (brownFilter brown white) = b (snd (brownFilter brown white)) * gain brown
   \<and> decay (snd (brownFilter brown white)) = decay brown
   \<and> scale (snd (brownFilter brown white)) = scale brown
   \<and> gain (snd (brownFilter brown white)) = gain brown
   \<and> length (brownStates brown whites) = length whites
   \<and> list_all (\<lambda>s. - 1 \<le> b s \<and> b s \<le> 1
                  \<and> decay s = decay brown \<and> scale s = scale brown \<and> gain s = gain brown)
        (brownStates brown whites)
   \<and> fst (brownRun brown whites) = map (\<lambda>s. b s * gain brown) (brownStates brown whites)
   \<and> initBrownState sampleRate =
       \<lparr>b = 0,
        decay = exp (- 1 / (sampleRate * 0.02)),
        scale = 1 - exp (- 1 / (sampleRate * 0.02)),
        gain = 0.5 * sqrt ((1 + exp (- 1 / (sampleRate * 0.02))) / (1 - exp (- 1 / (sampleRate * 0.02))))\<rparr>
   \<and> list_all (\<lambda>s. - 1 \<le> b s \<and> b s \<le> 1
                  \<and> decay s = exp (- 1 / (sampleRate * 0.02))
                  \<and> scale s = 1 - exp (- 1 / (sampleRate * 0.02))
                  \<and> gain s = 0.5 * sqrt ((1 + exp (- 1 / (sampleRate * 0.02))) / (1 - exp (- 1 / (sampleRate * 0.02)))))
        [brownL (runEvents sampleRate events (newNoiseProcessor sampleRate fallbackSeeds)),
         brownR (runEvents sampleRate events (newNoiseProcessor sampleRate fallbackSeeds))]"
proof -
  let ?p = "runEvents sampleRate events (newNoiseProcessor sampleRate fallbackSeeds)"
  have c: "- 1 \<le> b (snd (brownFilter brown white)) \<and> b (snd (brownFilter brown white)) \<le> 1"
    using brownFilter_clamped [of brown white] by (simp add: clamped_def)
  have k: "constants ?p = constants (newNoiseProcessor sampleRate fallbackSeeds)"
    by (rule runEvents_constants)
  have e: "- 1 \<le> b (brownL ?p) \<and> b (brownL ?p) \<le> 1 \<and> - 1 \<le> b (brownR ?p) \<and> b (brownR ?p) \<le> 1"
    using runEvents_clamped [OF constructed_clamped, of sampleRate events sampleRate fallbackSeeds]
    by (simp add: clamped_def)
  have i: "brownL (newNoiseProcessor sampleRate fallbackSeeds) = initBrownState sampleRate"
    "brownR (newNoiseProcessor sampleRate fallbackSeeds) = initBrownState sampleRate"
    by (simp_all add: newNoiseProcessor_def)
  have f: "decay (brownL ?p) = decay (initBrownState sampleRate)
    \<and> scale (brownL ?p) = scale (initBrownState sampleRate)
    \<and> gain (brownL ?p) = gain (initBrownState sampleRate)
    \<and> decay (brownR ?p) = decay (initBrownState sampleRate)
    \<and> scale (brownR ?p) = scale (initBrownState sampleRate)
    \<and> gain (brownR ?p) = gain (initBrownState sampleRate)"
    using k by (simp add: constants_def i)
  have g: "decay (initBrownState sampleRate) = exp (- 1 / (sampleRate * 0.02))
    \<and> scale (initBrownState sampleRate) = 1 - exp (- 1 / (sampleRate * 0.02))
    \<and> gain (initBrownState sampleRate) =
        0.5 * sqrt ((1 + exp (- 1 / (sampleRate * 0.02))) / (1 - exp (- 1 / (sampleRate * 0.02))))"
    by (simp add: initBrownState_def Let_def)
  have a: "list_all (\<lambda>s. - 1 \<le> b s \<and> b s \<le> 1
                  \<and> decay s = decay brown \<and> scale s = scale brown \<and> gain s = gain brown)
        (brownStates brown whites)"
    using brownStates_all [of brown whites] by (simp add: clamped_def)
  have l: "list_all (\<lambda>s. - 1 \<le> b s \<and> b s \<le> 1
                  \<and> decay s = exp (- 1 / (sampleRate * 0.02))
                  \<and> scale s = 1 - exp (- 1 / (sampleRate * 0.02))
                  \<and> gain s = 0.5 * sqrt ((1 + exp (- 1 / (sampleRate * 0.02))) / (1 - exp (- 1 / (sampleRate * 0.02)))))
        [brownL ?p, brownR ?p]"
    using e f g by simp
  from brownFilter_accumulator [of brown white] c brownFilter_output [of brown white]
    brownFilter_constants [of brown white] brownStates_length [of brown whites] a
    brownRun_outputs [of brown whites] initBrownState_fields [of sampleRate] l
  show ?thesis by blast
qed

section \<open>The entropy request\<close>

lemma process_request:
  "fst (process ((outL # outR # chans) # outs) this) =
     (if seedRequestThreshold this \<le> samplesSinceLastSeed this + int outL
         \<and> length (seedQueue this) < 2
      then [NeedSeed] else [])
   \<and> samplesSinceLastSeed (snd (snd (process ((outL # outR # chans) # outs) this))) =
     (if seedRequestThreshold this \<le> samplesSinceLastSeed this + int outL
         \<and> length (seedQueue this) < 2
      then 0 else samplesSinceLastSeed this + int outL)
   \<and> seedRequestThreshold (snd (snd (process ((outL # outR # chans) # outs) this))) =
       seedRequestThreshold this
   \<and> seedQueue (snd (snd (process ((outL # outR # chans) # outs) this))) = tl (seedQueue this)"
proof -
  let ?a = "snd (requestSeed outL this)"
  have "seedQueue (mixQueuedSeed ?a) = tl (seedQueue this)
      \<and> samplesSinceLastSeed (mixQueuedSeed ?a) = samplesSinceLastSeed ?a
      \<and> seedRequestThreshold (mixQueuedSeed ?a) = seedRequestThreshold this"
    by (simp add: mixQueuedSeed_state requestSeed_state split: list.split)
  then show ?thesis
    by (simp add: process_stereo renderBlock_frame requestSeed_posted) (simp add: requestSeed_state)
qed

lemma ceiling_blocks:
  assumes "0 < B"
  shows "T \<le> int (m * B) \<longleftrightarrow> nat \<lceil>real_of_int T / real B\<rceil> \<le> m"
proof -
  have "nat \<lceil>real_of_int T / real B\<rceil> \<le> m \<longleftrightarrow> \<lceil>real_of_int T / real B\<rceil> \<le> int m"
    by (simp add: nat_le_iff)
  also have "\<dots> \<longleftrightarrow> real_of_int T / real B \<le> real m"
    by (simp add: ceiling_le_iff)
  also have "\<dots> \<longleftrightarrow> real_of_int T \<le> real m * real B"
    using assms by (simp add: pos_divide_le_eq)
  also have "\<dots> \<longleftrightarrow> real_of_int T \<le> real_of_int (int (m * B))"
    by simp
  also have "\<dots> \<longleftrightarrow> T \<le> int (m * B)"
    by (simp only: of_int_le_iff)
  finally show ?thesis by simp
qed

lemma upt_Suc_shift: "[0..<Suc n] = 0 # map Suc [0..<n]"
  by (simp only: upt_conv_Cons [OF zero_less_Suc] map_Suc_upt)

lemma processBlocks_requests:
  assumes "0 < B" "0 < N" "N = nat \<lceil>real_of_int (seedRequestThreshold this) / real B\<rceil>"
    and "length (seedQueue this) < 2"
    and "samplesSinceLastSeed this = int (j * B)" "j < N"
  shows "fst (processBlocks (replicate n B) this) =
     map (\<lambda>i. if (j + i + 1) mod N = 0 then [NeedSeed] else []) [0..<n]"
  using assms(3-6)
proof (induction n arbitrary: this j)
  case 0
  show ?case by simp
next
  case (Suc n)
  let ?that = "snd (snd (process (stereo B) this))"
  let ?j = "if Suc j = N then 0 else Suc j"
  note p = process_request [of B B "[]" "[]" this, folded stereo_def]
  have fire: "seedRequestThreshold this \<le> samplesSinceLastSeed this + int B \<longleftrightarrow> Suc j = N"
  proof -
    have "seedRequestThreshold this \<le> int (Suc j * B) \<longleftrightarrow> N \<le> Suc j"
      using ceiling_blocks [OF assms(1), of "seedRequestThreshold this" "Suc j"] Suc.prems(1)
      by simp
    moreover have "N \<le> Suc j \<longleftrightarrow> Suc j = N" using Suc.prems(4) by arith
    moreover have "samplesSinceLastSeed this + int B = int (Suc j * B)"
      using Suc.prems(3) by (simp add: algebra_simps)
    ultimately show ?thesis by (simp add: algebra_simps)
  qed
  have first: "fst (process (stereo B) this) = (if (j + 0 + 1) mod N = 0 then [NeedSeed] else [])"
  proof -
    have "(j + 0 + 1) mod N = 0 \<longleftrightarrow> Suc j = N"
      using Suc.prems(4) by (auto simp: mod_Suc)
    then show ?thesis using p fire Suc.prems(2) by simp
  qed
  have q: "length (seedQueue ?that) < 2" using p Suc.prems(2) by simp
  have t: "N = nat \<lceil>real_of_int (seedRequestThreshold ?that) / real B\<rceil>"
    using p Suc.prems(1) by simp
  have c: "samplesSinceLastSeed ?that = int (?j * B)"
    using p fire Suc.prems(2,3) by (simp add: algebra_simps)
  have jn: "?j < N" using Suc.prems(4) assms(2) by auto
  have rest: "fst (processBlocks (replicate n B) ?that) =
      map (\<lambda>i. if (?j + i + 1) mod N = 0 then [NeedSeed] else []) [0..<n]"
    by (rule Suc.IH [OF t q c jn])
  have shift: "(?j + i + 1) mod N = (j + Suc i + 1) mod N" for i
  proof (cases "Suc j = N")
    case True
    then have "j + Suc i + 1 = N + (i + 1)" by simp
    then have "(j + Suc i + 1) mod N = (i + 1) mod N" by (simp only: mod_add_self1)
    then show ?thesis using True by simp
  next
    case False
    then show ?thesis by simp
  qed
  from rest have rest': "fst (processBlocks (replicate n B) ?that) =
      map (\<lambda>i. if (j + Suc i + 1) mod N = 0 then [NeedSeed] else []) [0..<n]"
    unfolding shift .
  have "fst (processBlocks (replicate (Suc n) B) this) =
      fst (process (stereo B) this) # fst (processBlocks (replicate n B) ?that)"
    by (simp add: split_beta)
  also have "\<dots> = (if (j + 0 + 1) mod N = 0 then [NeedSeed] else [])
      # map (\<lambda>i. if (j + Suc i + 1) mod N = 0 then [NeedSeed] else []) [0..<n]"
    by (simp only: first rest')
  also have "\<dots> = map (\<lambda>i. if (j + i + 1) mod N = 0 then [NeedSeed] else []) [0..<Suc n]"
    unfolding upt_Suc_shift by (simp add: comp_def)
  finally show ?case .
qed

lemma count_multiples:
  "length (filter (\<lambda>i. (i + 1) mod N = 0) [0..<n]) = n div N"
  by (induction n) (simp_all add: div_Suc)


lemma handleMessage_counter:
  "samplesSinceLastSeed (handleMessage sampleRate this msg) = samplesSinceLastSeed this"
  by (cases msg) (simp_all add: Let_def)

lemma process_full_queue:
  "2 \<le> length (seedQueue this) \<Longrightarrow> fst (process outputs this) = []"
  using process_cases [of outputs this] process_request [of _ _ _ _ this]
  by (elim disjE exE) simp_all

lemma reachable_threshold:
  "seedRequestThreshold (runEvents sampleRate events (newNoiseProcessor sampleRate fallbackSeeds)) =
     \<lfloor>sampleRate * 0.5\<rfloor>"
  using runEvents_constants [of sampleRate events "newNoiseProcessor sampleRate fallbackSeeds"]
  by (simp add: constructed_constants) (simp add: constants_def)

text \<open>
  C6. A call of \<open>process\<close> on a block of \<open>B\<close> frames adds \<open>B\<close> to the count of
  samples since the last request; it posts one \<open>need-seed\<close> and resets the count to 0
  exactly when the count has then reached the threshold and fewer than 2 batches are
  queued, and posts nothing otherwise, so nothing while 2 batches or more are queued. The
  threshold is \<open>floor(sampleRate * 0.5)\<close> in every state the processor reaches, and no
  message changes the count. So with a threshold \<open>T > 0\<close>, blocks of a constant size
  \<open>B > 0\<close>, a count of 0 and a queue shorter than 2, block \<open>i\<close> posts a request
  exactly when \<open>i\<close> is a multiple of \<open>ceil(T / B)\<close>: the first \<open>n\<close> blocks post
  \<open>n div ceil(T / B)\<close> requests.
\<close>

theorem C6_backpressure:
  "0 < B \<Longrightarrow> 0 < seedRequestThreshold this \<Longrightarrow> samplesSinceLastSeed this = 0 \<Longrightarrow>
   length (seedQueue this) < 2 \<Longrightarrow>
     fst (processBlocks (replicate n B) this) =
       map (\<lambda>i. if (i + 1) mod nat \<lceil>real_of_int (seedRequestThreshold this) / real B\<rceil> = 0
                then [NeedSeed] else []) [0..<n]
   \<and> length (filter (\<lambda>posted. posted = [NeedSeed]) (fst (processBlocks (replicate n B) this))) =
       n div nat \<lceil>real_of_int (seedRequestThreshold this) / real B\<rceil>
   \<and> fst (process ((outL # outR # chans) # outs) that) =
       (if seedRequestThreshold that \<le> samplesSinceLastSeed that + int outL
           \<and> length (seedQueue that) < 2
        then [NeedSeed] else [])
   \<and> samplesSinceLastSeed (snd (snd (process ((outL # outR # chans) # outs) that))) =
       (if seedRequestThreshold that \<le> samplesSinceLastSeed that + int outL
           \<and> length (seedQueue that) < 2
        then 0 else samplesSinceLastSeed that + int outL)
   \<and> (2 \<le> length (seedQueue that) \<longrightarrow> fst (process outputs that) = [])
   \<and> samplesSinceLastSeed (handleMessage sampleRate that msg) = samplesSinceLastSeed that
   \<and> seedRequestThreshold (runEvents sampleRate events (newNoiseProcessor sampleRate fallbackSeeds)) =
       \<lfloor>sampleRate * 0.5\<rfloor>"
proof -
  assume B: "0 < B" and T: "0 < seedRequestThreshold this"
    and c: "samplesSinceLastSeed this = 0" and q: "length (seedQueue this) < 2"
  define N where "N = nat \<lceil>real_of_int (seedRequestThreshold this) / real B\<rceil>"
  have "0 < real_of_int (seedRequestThreshold this) / real B" using B T by simp
  then have N: "0 < N" unfolding N_def by simp
  have pat: "fst (processBlocks (replicate n B) this) =
      map (\<lambda>i. if (0 + i + 1) mod N = 0 then [NeedSeed] else []) [0..<n]"
    by (rule processBlocks_requests [OF B N N_def q _ N]) (simp add: c)
  then have pat': "fst (processBlocks (replicate n B) this) =
      map (\<lambda>i. if (i + 1) mod N = 0 then [NeedSeed] else []) [0..<n]"
    by simp
  have cnt: "length (filter (\<lambda>posted. posted = [NeedSeed]) (fst (processBlocks (replicate n B) this))) =
      n div N"
    unfolding pat' using count_multiples [of N n] by (simp add: filter_map comp_def)
  from pat' cnt process_request [of outL outR chans outs that] process_full_queue [of that outputs]
    handleMessage_counter [of sampleRate that msg]
    reachable_threshold [of sampleRate events fallbackSeeds]
  show ?thesis unfolding N_def by blast
qed

theorem C6_backpressure_witness:
  "(0::nat) < 128
   \<and> 0 < seedRequestThreshold (newNoiseProcessor 48000 [1, 2, 3, 4, 5, 6, 7, 8])
   \<and> samplesSinceLastSeed (newNoiseProcessor 48000 [1, 2, 3, 4, 5, 6, 7, 8]) = 0
   \<and> length (seedQueue (newNoiseProcessor 48000 [1, 2, 3, 4, 5, 6, 7, 8])) < 2
   \<and> nat \<lceil>real_of_int (seedRequestThreshold (newNoiseProcessor 48000 [1, 2, 3, 4, 5, 6, 7, 8])) / real 128\<rceil> = 188
   \<and> length (filter (\<lambda>posted. posted = [NeedSeed])
        (fst (processBlocks (replicate 376 128) (newNoiseProcessor 48000 [1, 2, 3, 4, 5, 6, 7, 8])))) = 2"
proof -
  let ?p = "newNoiseProcessor 48000 [1, 2, 3, 4, 5, 6, 7, 8]"
  have t: "seedRequestThreshold ?p = 24000" by (simp add: newNoiseProcessor_def)
  have h: "(0::nat) < 128" "0 < seedRequestThreshold ?p" "samplesSinceLastSeed ?p = 0"
    "length (seedQueue ?p) < 2"
    by (simp_all add: newNoiseProcessor_def)
  have N: "nat \<lceil>real_of_int (seedRequestThreshold ?p) / real 128\<rceil> = 188"
    unfolding t by simp
  have "length (filter (\<lambda>posted. posted = [NeedSeed])
        (fst (processBlocks (replicate 376 128) ?p))) = 376 div 188"
    using C6_backpressure [OF h, of 376, THEN conjunct2, THEN conjunct1] unfolding N .
  then show ?thesis using h N by simp
qed

section \<open>The crossfade\<close>

lemma renderLoop_remaining:
  "crossfadeSamplesRemaining (snd (renderLoop n True inc this)) =
     crossfadeSamplesRemaining this - int n"
  by (induction n arbitrary: this)
     (simp_all add: renderLoop_Suc_state renderSample_state del: renderLoop.simps(2))

lemma renderLoop_before:
  "int n < crossfadeSamplesRemaining this \<Longrightarrow>
     crossfadeProgress (snd (renderLoop n True inc this)) = crossfadeProgress this + real n * inc
   \<and> currentMode (snd (renderLoop n True inc this)) = currentMode this"
proof (induction n arbitrary: this)
  case 0
  show ?case by simp
next
  case (Suc n)
  define that where "that = snd (renderSample True inc this)"
  have f: "crossfadeSamplesRemaining that = crossfadeSamplesRemaining this - 1"
    "crossfadeProgress that = crossfadeProgress this + inc"
    "currentMode that = currentMode this"
    using Suc.prems by (simp_all add: that_def renderSample_state)
  have "int n < crossfadeSamplesRemaining that" using Suc.prems f by simp
  from Suc.IH [OF this] show ?case
    unfolding renderLoop_Suc_state that_def [symmetric] by (simp add: f algebra_simps)
qed

lemma renderLoop_after:
  "crossfadeSamplesRemaining this \<le> int n \<Longrightarrow> 0 < n \<Longrightarrow>
     crossfadeProgress (snd (renderLoop n True inc this)) = 1
   \<and> currentMode (snd (renderLoop n True inc this)) = targetMode this"
proof (induction n arbitrary: this)
  case 0
  then show ?case by simp
next
  case (Suc n)
  define that where "that = snd (renderSample True inc this)"
  have f: "crossfadeSamplesRemaining that = crossfadeSamplesRemaining this - 1"
    "targetMode that = targetMode this"
    by (simp_all add: that_def renderSample_state)
  show ?case
  proof (cases n)
    case 0
    then have "crossfadeSamplesRemaining this - 1 \<le> 0" using Suc.prems by simp
    then show ?thesis using 0 by (simp add: renderSample_state split_beta)
  next
    case (Suc m)
    then have "crossfadeSamplesRemaining that \<le> int n" "0 < n" using Suc.prems f by simp_all
    from Suc.IH [OF this] show ?thesis
      unfolding renderLoop_Suc_state that_def [symmetric] by (simp add: f)
  qed
qed

lemma renderLoop_steady:
  "crossfadeState (snd (renderLoop n False inc this)) = crossfadeState this"
  by (induction n arbitrary: this)
     (simp_all add: renderLoop_Suc_state renderSample_state crossfadeState_def
        del: renderLoop.simps(2))

lemma renderBlock_fading:
  "0 < crossfadeSamplesRemaining this \<Longrightarrow>
     renderBlock n this = renderLoop n True (1 / real_of_int (crossfadeSamplesRemaining this)) this"
  by (simp add: renderBlock_def Let_def)

lemma renderBlock_rest:
  "crossfadeSamplesRemaining this \<le> 0 \<Longrightarrow> renderBlock n this = renderLoop n False 0 this"
  by (simp add: renderBlock_def Let_def)

lemma renderBlock_crossfade:
  "crossfadeState (snd (renderBlock n this)) =
     (if crossfadeSamplesRemaining this \<le> 0 then crossfadeState this
      else if int n < crossfadeSamplesRemaining this
      then (currentMode this, targetMode this,
            crossfadeProgress this + real n / real_of_int (crossfadeSamplesRemaining this),
            crossfadeSamplesRemaining this - int n)
      else (targetMode this, targetMode this, 1, crossfadeSamplesRemaining this - int n))"
proof -
  consider (rest) "crossfadeSamplesRemaining this \<le> 0"
    | (before) "0 < crossfadeSamplesRemaining this" "int n < crossfadeSamplesRemaining this"
    | (after) "0 < crossfadeSamplesRemaining this" "crossfadeSamplesRemaining this \<le> int n"
    by linarith
  then show ?thesis
  proof cases
    case rest
    then show ?thesis by (simp add: renderBlock_rest renderLoop_steady)
  next
    case before
    then show ?thesis
      using renderLoop_before [of n this "1 / real_of_int (crossfadeSamplesRemaining this)"]
      by (simp add: renderBlock_fading crossfadeState_def renderLoop_remaining renderLoop_frame)
  next
    case after
    then have "0 < n" by simp
    from renderLoop_after [OF after(2) this, of "1 / real_of_int (crossfadeSamplesRemaining this)"]
    show ?thesis using after
      by (simp add: renderBlock_fading crossfadeState_def renderLoop_remaining renderLoop_frame)
  qed
qed

lemma process_crossfade:
  "crossfadeState (snd (snd (process ((outL # outR # chans) # outs) this))) =
     crossfadeState (snd (renderBlock outL this))"
proof -
  let ?m = "mixQueuedSeed (snd (requestSeed outL this))"
  have "crossfadeState ?m = crossfadeState this"
    by (simp add: crossfadeState_def mixQueuedSeed_state requestSeed_state split: list.split)
  then have "crossfadeState (snd (renderBlock outL ?m)) = crossfadeState (snd (renderBlock outL this))"
    unfolding renderBlock_crossfade by (simp add: crossfadeState_def)
  then show ?thesis by (simp add: process_stereo)
qed

lemma processBlocks_Cons:
  "snd (processBlocks (n # ns) this) = snd (processBlocks ns (snd (snd (process (stereo n) this))))"
  by (simp add: split_beta)

lemma block_crossfade:
  "crossfadeState (snd (snd (process (stereo n) this))) =
     (if crossfadeSamplesRemaining this \<le> 0 then crossfadeState this
      else if int n < crossfadeSamplesRemaining this
      then (currentMode this, targetMode this,
            crossfadeProgress this + real n / real_of_int (crossfadeSamplesRemaining this),
            crossfadeSamplesRemaining this - int n)
      else (targetMode this, targetMode this, 1, crossfadeSamplesRemaining this - int n))"
  unfolding stereo_def process_crossfade renderBlock_crossfade ..

lemma processBlocks_rest:
  "crossfadeSamplesRemaining this \<le> 0 \<Longrightarrow>
     crossfadeState (snd (processBlocks ns this)) = crossfadeState this"
proof (induction ns arbitrary: this)
  case Nil
  show ?case by simp
next
  case (Cons n ns)
  let ?that = "snd (snd (process (stereo n) this))"
  have s: "crossfadeState ?that = crossfadeState this"
    using Cons.prems by (simp add: block_crossfade)
  then have "crossfadeSamplesRemaining ?that \<le> 0"
    using Cons.prems by (simp add: crossfadeState_def)
  from Cons.IH [OF this] show ?case
    unfolding processBlocks_Cons using s by simp
qed

lemma processBlocks_fade:
  assumes "0 < crossfadeSamplesRemaining this"
  shows "crossfadeState (snd (processBlocks ns this)) =
     (if int (sum_list ns) < crossfadeSamplesRemaining this
      then (currentMode this, targetMode this, crossfadeProgress (snd (processBlocks ns this)),
            crossfadeSamplesRemaining this - int (sum_list ns))
      else (targetMode this, targetMode this, 1, crossfadeSamplesRemaining (snd (processBlocks ns this))))
   \<and> (crossfadeSamplesRemaining this \<le> int (sum_list ns) \<longrightarrow>
        crossfadeSamplesRemaining (snd (processBlocks ns this)) \<le> 0)"
  using assms
proof (induction ns arbitrary: this)
  case Nil
  then show ?case by (simp add: crossfadeState_def)
next
  case (Cons n ns)
  let ?that = "snd (snd (process (stereo n) this))"
  show ?case
  proof (cases "int n < crossfadeSamplesRemaining this")
    case True
    then have s: "crossfadeState ?that =
        (currentMode this, targetMode this,
         crossfadeProgress this + real n / real_of_int (crossfadeSamplesRemaining this),
         crossfadeSamplesRemaining this - int n)"
      using Cons.prems by (simp add: block_crossfade)
    then have f: "currentMode ?that = currentMode this" "targetMode ?that = targetMode this"
      "crossfadeSamplesRemaining ?that = crossfadeSamplesRemaining this - int n"
      by (simp_all add: crossfadeState_def)
    have "0 < crossfadeSamplesRemaining ?that" using True f by simp
    from Cons.IH [OF this] show ?thesis
      unfolding processBlocks_Cons f by (simp add: algebra_simps)
  next
    case False
    then have s: "crossfadeState ?that =
        (targetMode this, targetMode this, 1, crossfadeSamplesRemaining this - int n)"
      using Cons.prems by (simp add: block_crossfade)
    then have r: "crossfadeSamplesRemaining ?that \<le> 0"
      using False by (simp add: crossfadeState_def)
    have "crossfadeState (snd (processBlocks (n # ns) this)) = crossfadeState ?that"
      unfolding processBlocks_Cons by (rule processBlocks_rest [OF r])
    then show ?thesis using s r False by (simp add: crossfadeState_def)
  qed
qed

lemma processBlocks_constant:
  "int (k * B) < crossfadeSamplesRemaining this \<Longrightarrow>
     crossfadeState (snd (processBlocks (replicate k B) this)) =
       (currentMode this, targetMode this,
        crossfadeProgress this +
          sum_list (map (\<lambda>j. real B / real_of_int (crossfadeSamplesRemaining this - int (j * B))) [0..<k]),
        crossfadeSamplesRemaining this - int (k * B))"
proof (induction k arbitrary: this)
  case 0
  show ?case by (simp add: crossfadeState_def)
next
  case (Suc k)
  let ?that = "snd (snd (process (stereo B) this))"
  have lt: "int B < crossfadeSamplesRemaining this" "0 < crossfadeSamplesRemaining this"
    using Suc.prems by (simp_all add: algebra_simps) (smt (verit) of_nat_0_le_iff mult_nonneg_nonneg)+
  then have s: "crossfadeState ?that =
      (currentMode this, targetMode this,
       crossfadeProgress this + real B / real_of_int (crossfadeSamplesRemaining this),
       crossfadeSamplesRemaining this - int B)"
    by (simp add: block_crossfade)
  then have f: "currentMode ?that = currentMode this" "targetMode ?that = targetMode this"
    "crossfadeSamplesRemaining ?that = crossfadeSamplesRemaining this - int B"
    "crossfadeProgress ?that = crossfadeProgress this + real B / real_of_int (crossfadeSamplesRemaining this)"
    by (simp_all add: crossfadeState_def)
  have "int (k * B) < crossfadeSamplesRemaining ?that"
    using Suc.prems f by (simp add: algebra_simps)
  from Suc.IH [OF this] show ?case
    unfolding replicate_Suc processBlocks_Cons f upt_Suc_shift
    by (simp add: comp_def algebra_simps del: upt_Suc)
qed

lemma processBlocks_runEvents:
  "snd (processBlocks ns this) = runEvents sampleRate (map (\<lambda>n. Render (stereo n)) ns) this"
  unfolding runEvents_def
  by (induction ns arbitrary: this) (simp_all add: split_beta)

lemma renderSample_output:
  "fst (renderSample True inc this) =
     (cos (0.5 * pi * crossfadeProgress this) * fst (modeSamples this (currentMode this))
        + sin (0.5 * pi * crossfadeProgress this) * fst (modeSamples this (targetMode this)),
      cos (0.5 * pi * crossfadeProgress this) * snd (modeSamples this (currentMode this))
        + sin (0.5 * pi * crossfadeProgress this) * snd (modeSamples this (targetMode this)))
   \<and> fst (renderSample False inc this) = modeSamples this (currentMode this)"
  by (simp add: renderSample_def modeSamples_def Let_def split_beta)

lemma equal_power_gains:
  "cos (0.5 * pi * 0) = 1 \<and> sin (0.5 * pi * 0) = 0
   \<and> cos (0.5 * pi * 1) = 0 \<and> sin (0.5 * pi * 1) = 1
   \<and> cos (0.5 * pi * 0.5) = cos (pi / 4) \<and> sin (0.5 * pi * 0.5) = cos (pi / 4)
   \<and> cos (pi / 4) = sqrt 2 / 2
   \<and> 0.7071 < sqrt 2 / 2 \<and> sqrt 2 / 2 < 0.7072"
proof -
  have q: "0.5 * pi * 0.5 = pi / 4" by simp
  have "(1.4142 :: real) < sqrt 2" by (rule real_less_rsqrt) (simp add: power2_eq_square)
  moreover have "sqrt 2 < (1.4144 :: real)" by (rule real_less_lsqrt) (simp_all add: power2_eq_square)
  ultimately show ?thesis
    unfolding q by (simp add: cos_45 sin_45)
qed

lemma armed_crossfade:
  "crossfadeState (handleMessage 48000 (newNoiseProcessor 48000 fallbackSeeds) (SetMode Brown)) =
     (Pink, Brown, 0, 2400)"
  by (simp add: newNoiseProcessor_def crossfadeState_def)

lemma runEvents_Cons:
  "runEvents sampleRate (e # events) this = runEvents sampleRate events (step sampleRate this e)"
  by (simp add: runEvents_def)

lemma runEvents_snoc:
  "runEvents sampleRate (events @ [e]) this = step sampleRate (runEvents sampleRate events this) e"
  by (simp add: runEvents_def)

lemma render_blocks:
  "runEvents sampleRate (replicate k (Render (stereo B))) this =
     snd (processBlocks (replicate k B) this)"
  by (simp add: processBlocks_runEvents [of _ _ sampleRate])

section \<open>A fade at 48 kHz in blocks of 128 frames\<close>

lemma fade_run:
  assumes "int (k * 128) < 2400"
  shows "crossfadeState
      (runEvents 48000 (Message (SetMode Brown) # replicate k (Render (stereo 128)))
         (newNoiseProcessor 48000 fallbackSeeds)) =
     (Pink, Brown,
      sum_list (map (\<lambda>j. 128 / real_of_int (2400 - int (j * 128))) [0..<k]),
      2400 - int (k * 128))"
proof -
  define armed where
    "armed = handleMessage 48000 (newNoiseProcessor 48000 fallbackSeeds) (SetMode Brown)"
  have a: "currentMode armed = Pink" "targetMode armed = Brown"
    "crossfadeProgress armed = 0" "crossfadeSamplesRemaining armed = 2400"
    using armed_crossfade [of fallbackSeeds] by (simp_all add: crossfadeState_def armed_def)
  have "int (k * 128) < crossfadeSamplesRemaining armed" using assms by (simp add: a)
  from processBlocks_constant [OF this]
  have "crossfadeState (snd (processBlocks (replicate k 128) armed)) =
     (Pink, Brown,
      sum_list (map (\<lambda>j. 128 / real_of_int (2400 - int (j * 128))) [0..<k]),
      2400 - int (k * 128))"
    by (simp add: a)
  moreover have "step 48000 (newNoiseProcessor 48000 fallbackSeeds) (Message (SetMode Brown)) = armed"
    by (simp only: step.simps armed_def)
  ultimately show ?thesis
    by (simp only: runEvents_Cons render_blocks)
qed

lemma fade_13:
  "crossfadeState
      (runEvents 48000 (Message (SetMode Brown) # replicate 13 (Render (stereo 128)))
         (newNoiseProcessor 48000 fallbackSeeds)) =
     (Pink, Brown, 32431011860805788 / 28853725916612025, 736)"
  using fade_run [of 13 fallbackSeeds] by (simp add: upt_conv_Cons)

lemma fade_restart:
  "crossfadeState
      (runEvents 48000
         (Message (SetMode Brown) # replicate 13 (Render (stereo 128)) @ [Message (SetMode Pink)])
         (newNoiseProcessor 48000 fallbackSeeds)) = (Pink, Pink, 0, 2400)"
proof -
  define mid where
    "mid = runEvents 48000 (Message (SetMode Brown) # replicate 13 (Render (stereo 128)))
       (newNoiseProcessor 48000 fallbackSeeds)"
  have mf: "currentMode mid = Pink" "targetMode mid = Brown"
    "crossfadeProgress mid = 32431011860805788 / 28853725916612025"
    using fade_13 [of fallbackSeeds] by (simp_all add: crossfadeState_def mid_def)
  have md: "crossfadeDuration mid = 0.05"
    unfolding mid_def by (rule reachable_crossfadeDuration)
  have "crossfadeState (handleMessage 48000 mid (SetMode Pink)) = (Pink, Pink, 0, 2400)"
    by (simp add: mf md crossfadeState_def)
  then show ?thesis
    unfolding append_Cons [symmetric] runEvents_snoc step.simps mid_def .
qed

lemma fade_end:
  "crossfadeState
      (runEvents 48000 (Message (SetMode Brown) # replicate 19 (Render (stereo 128)))
         (newNoiseProcessor 48000 fallbackSeeds)) = (Brown, Brown, 1, - 32)"
proof -
  define late where
    "late = runEvents 48000 (Message (SetMode Brown) # replicate 18 (Render (stereo 128)))
       (newNoiseProcessor 48000 fallbackSeeds)"
  have "crossfadeSamplesRemaining late = 96 \<and> targetMode late = Brown"
    using fade_run [of 18 fallbackSeeds] by (simp add: crossfadeState_def late_def)
  then have l: "crossfadeState (step 48000 late (Render (stereo 128))) = (Brown, Brown, 1, - 32)"
    by (simp add: block_crossfade)
  have "(19::nat) = Suc 18" by simp
  then have "replicate 19 (Render (stereo 128)) =
      replicate 18 (Render (stereo 128)) @ [Render (stereo 128)]"
    by (simp only: replicate_Suc replicate_append_same)
  then have "runEvents 48000 (Message (SetMode Brown) # replicate 19 (Render (stereo 128)))
       (newNoiseProcessor 48000 fallbackSeeds) = step 48000 late (Render (stereo 128))"
    by (simp only: append_Cons [symmetric] runEvents_snoc late_def)
  then show ?thesis using l by simp
qed

text \<open>
  C2. The invariant does not hold of the code. At a sample rate of 48000 a \<open>set-mode\<close>
  to brown arms a fade of 2400 samples. After 13 blocks of 128 frames 736 samples remain
  and the mode is still pink, but the progress is above 1: the increment is recomputed
  from the samples remaining at the start of every block. A \<open>set-mode\<close> arriving then
  finds the progress at 1 or more and arms a new fade. After 19 blocks the fade is over,
  with progress 1 and both modes brown, and the samples remaining are -32, not 0: the
  whole last block has counted down.
\<close>

theorem C2_progress_overshoots:
  "crossfadeSamplesRemaining
     (runEvents 48000 (Message (SetMode Brown) # replicate 13 (Render (stereo 128)))
        (newNoiseProcessor 48000 fallbackSeeds)) = 736
   \<and> 1 < crossfadeProgress
       (runEvents 48000 (Message (SetMode Brown) # replicate 13 (Render (stereo 128)))
          (newNoiseProcessor 48000 fallbackSeeds))
   \<and> currentMode
       (runEvents 48000 (Message (SetMode Brown) # replicate 13 (Render (stereo 128)))
          (newNoiseProcessor 48000 fallbackSeeds)) = Pink
   \<and> targetMode
       (runEvents 48000 (Message (SetMode Brown) # replicate 13 (Render (stereo 128)))
          (newNoiseProcessor 48000 fallbackSeeds)) = Brown
   \<and> crossfadeState
       (runEvents 48000
          (Message (SetMode Brown) # replicate 13 (Render (stereo 128)) @ [Message (SetMode Pink)])
          (newNoiseProcessor 48000 fallbackSeeds)) = (Pink, Pink, 0, 2400)
   \<and> crossfadeState
       (runEvents 48000 (Message (SetMode Brown) # replicate 19 (Render (stereo 128)))
          (newNoiseProcessor 48000 fallbackSeeds)) = (Brown, Brown, 1, - 32)"
proof -
  from fade_13 [of fallbackSeeds] fade_restart [of fallbackSeeds] fade_end [of fallbackSeeds]
  show ?thesis by (simp add: crossfadeState_def)
qed

text \<open>
  C7. A \<open>set-mode\<close> message whose mode is the target mode changes nothing. Otherwise,
  in any state the processor can reach, it sets the target mode, and with the progress
  at 1 or more it also resets the progress to 0 and sets the samples remaining to
  \<open>floor(0.05 * sampleRate)\<close>. The code takes a progress of 1 or more for "not
  transitioning", and this fails: at a sample rate of 48000, 13 blocks of 128 frames into
  a fade to brown, 736 samples remain and the current mode is still pink, yet the
  progress is above 1, and a second request, for pink, restarts the timing: progress 0
  and 2400 samples remaining.
\<close>

theorem C7_second_request_restarts:
  "(let this = runEvents sampleRate events (newNoiseProcessor sampleRate seeds)
    in handleMessage sampleRate this (SetMode mode) =
         (if mode = targetMode this then this
          else if 1 \<le> crossfadeProgress this
          then this\<lparr>targetMode := mode, crossfadeProgress := 0,
                    crossfadeSamplesRemaining := \<lfloor>0.05 * sampleRate\<rfloor>\<rparr>
          else this\<lparr>targetMode := mode\<rparr>))
   \<and> crossfadeSamplesRemaining
       (runEvents 48000 (Message (SetMode Brown) # replicate 13 (Render (stereo 128)))
          (newNoiseProcessor 48000 fallbackSeeds)) = 736
   \<and> currentMode
       (runEvents 48000 (Message (SetMode Brown) # replicate 13 (Render (stereo 128)))
          (newNoiseProcessor 48000 fallbackSeeds)) = Pink
   \<and> targetMode
       (runEvents 48000 (Message (SetMode Brown) # replicate 13 (Render (stereo 128)))
          (newNoiseProcessor 48000 fallbackSeeds)) = Brown
   \<and> crossfadeProgress
       (runEvents 48000 (Message (SetMode Brown) # replicate 13 (Render (stereo 128)))
          (newNoiseProcessor 48000 fallbackSeeds)) = 32431011860805788 / 28853725916612025
   \<and> crossfadeSamplesRemaining
       (runEvents 48000
          (Message (SetMode Brown) # replicate 13 (Render (stereo 128)) @ [Message (SetMode Pink)])
          (newNoiseProcessor 48000 fallbackSeeds)) = 2400
   \<and> crossfadeProgress
       (runEvents 48000
          (Message (SetMode Brown) # replicate 13 (Render (stereo 128)) @ [Message (SetMode Pink)])
          (newNoiseProcessor 48000 fallbackSeeds)) = 0"
proof -
  have "(let this = runEvents sampleRate events (newNoiseProcessor sampleRate seeds)
    in handleMessage sampleRate this (SetMode mode) =
         (if mode = targetMode this then this
          else if 1 \<le> crossfadeProgress this
          then this\<lparr>targetMode := mode, crossfadeProgress := 0,
                    crossfadeSamplesRemaining := \<lfloor>0.05 * sampleRate\<rfloor>\<rparr>
          else this\<lparr>targetMode := mode\<rparr>))"
    by (simp add: Let_def reachable_crossfadeDuration)
  with fade_13 [of fallbackSeeds] fade_restart [of fallbackSeeds]
  show ?thesis by (simp add: crossfadeState_def)
qed

lemma renderSample_progress:
  "crossfadeProgress (snd (renderSample True inc this)) =
     (if crossfadeSamplesRemaining this \<le> 1 then 1 else crossfadeProgress this + inc)
   \<and> crossfadeSamplesRemaining (snd (renderSample True inc this)) =
       crossfadeSamplesRemaining this - 1
   \<and> currentMode (snd (renderSample True inc this)) =
       (if crossfadeSamplesRemaining this \<le> 1 then targetMode this else currentMode this)"
  by (simp add: renderSample_state)

text \<open>
  What the crossfade code does while samples remain: the increment of a block is 1 over
  the samples remaining when the block began; every sample blends
  \<open>cos(0.5 * pi * progress) * old + sin(0.5 * pi * progress) * new\<close>, adds the increment
  to the progress and takes 1 from the samples remaining, and when none remain it sets
  the progress to 1 and the current mode to the target mode. The collapse comes with the
  last of the samples armed, however they are split into blocks. At progress 0 the blend
  is the old mode's sample, at progress 1 the new mode's, and at progress 0.5 both gains
  are \<open>cos(pi / 4) = sqrt 2 / 2\<close>, between 0.7071 and 0.7072.
\<close>

lemma crossfade_behaviour:
  "0 < crossfadeSamplesRemaining this \<Longrightarrow>
     renderBlock n this =
       renderLoop n True (1 / real_of_int (crossfadeSamplesRemaining this)) this
   \<and> fst (renderSample True inc this) =
       (cos (0.5 * pi * crossfadeProgress this) * fst (modeSamples this (currentMode this))
          + sin (0.5 * pi * crossfadeProgress this) * fst (modeSamples this (targetMode this)),
        cos (0.5 * pi * crossfadeProgress this) * snd (modeSamples this (currentMode this))
          + sin (0.5 * pi * crossfadeProgress this) * snd (modeSamples this (targetMode this)))
   \<and> crossfadeProgress (snd (renderSample True inc this)) =
       (if crossfadeSamplesRemaining this \<le> 1 then 1 else crossfadeProgress this + inc)
   \<and> crossfadeSamplesRemaining (snd (renderSample True inc this)) =
       crossfadeSamplesRemaining this - 1
   \<and> currentMode (snd (renderSample True inc this)) =
       (if crossfadeSamplesRemaining this \<le> 1 then targetMode this else currentMode this)
   \<and> crossfadeState (snd (renderBlock n this)) =
       (if int n < crossfadeSamplesRemaining this
        then (currentMode this, targetMode this,
              crossfadeProgress this + real n / real_of_int (crossfadeSamplesRemaining this),
              crossfadeSamplesRemaining this - int n)
        else (targetMode this, targetMode this, 1, crossfadeSamplesRemaining this - int n))
   \<and> (int (sum_list ns) < crossfadeSamplesRemaining this \<longrightarrow>
        crossfadeSamplesRemaining (snd (processBlocks ns this)) =
          crossfadeSamplesRemaining this - int (sum_list ns)
        \<and> currentMode (snd (processBlocks ns this)) = currentMode this
        \<and> targetMode (snd (processBlocks ns this)) = targetMode this)
   \<and> (crossfadeSamplesRemaining this \<le> int (sum_list ns) \<longrightarrow>
        crossfadeProgress (snd (processBlocks ns this)) = 1
        \<and> currentMode (snd (processBlocks ns this)) = targetMode this
        \<and> targetMode (snd (processBlocks ns this)) = targetMode this
        \<and> crossfadeSamplesRemaining (snd (processBlocks ns this)) \<le> 0)
   \<and> fst (renderSample False inc this) = modeSamples this (currentMode this)
   \<and> (crossfadeProgress this = 0 \<longrightarrow>
        fst (renderSample True inc this) = modeSamples this (currentMode this))
   \<and> (crossfadeProgress this = 1 \<longrightarrow>
        fst (renderSample True inc this) = modeSamples this (targetMode this))
   \<and> (crossfadeProgress this = 0.5 \<longrightarrow>
        fst (renderSample True inc this) =
          (sqrt 2 / 2 * fst (modeSamples this (currentMode this))
             + sqrt 2 / 2 * fst (modeSamples this (targetMode this)),
           sqrt 2 / 2 * snd (modeSamples this (currentMode this))
             + sqrt 2 / 2 * snd (modeSamples this (targetMode this))))
   \<and> cos (0.5 * pi * 0.5) = cos (pi / 4) \<and> sin (0.5 * pi * 0.5) = cos (pi / 4)
   \<and> cos (pi / 4) = sqrt 2 / 2 \<and> 0.7071 < sqrt 2 / 2 \<and> sqrt 2 / 2 < 0.7072
   \<and> (mode \<noteq> targetMode (runEvents sampleRate events (newNoiseProcessor sampleRate fallbackSeeds))
        \<and> 1 \<le> crossfadeProgress (runEvents sampleRate events (newNoiseProcessor sampleRate fallbackSeeds)) \<longrightarrow>
        crossfadeSamplesRemaining
          (handleMessage sampleRate
             (runEvents sampleRate events (newNoiseProcessor sampleRate fallbackSeeds))
             (SetMode mode)) = \<lfloor>0.05 * sampleRate\<rfloor>
        \<and> crossfadeProgress
          (handleMessage sampleRate
             (runEvents sampleRate events (newNoiseProcessor sampleRate fallbackSeeds))
             (SetMode mode)) = 0)"
proof -
  assume r: "0 < crossfadeSamplesRemaining this"
  note g = equal_power_gains
  note o = renderSample_output [of inc this]
  have blk: "crossfadeState (snd (renderBlock n this)) =
       (if int n < crossfadeSamplesRemaining this
        then (currentMode this, targetMode this,
              crossfadeProgress this + real n / real_of_int (crossfadeSamplesRemaining this),
              crossfadeSamplesRemaining this - int n)
        else (targetMode this, targetMode this, 1, crossfadeSamplesRemaining this - int n))"
    using r by (simp add: renderBlock_crossfade)
  have before: "int (sum_list ns) < crossfadeSamplesRemaining this \<longrightarrow>
        crossfadeSamplesRemaining (snd (processBlocks ns this)) =
          crossfadeSamplesRemaining this - int (sum_list ns)
        \<and> currentMode (snd (processBlocks ns this)) = currentMode this
        \<and> targetMode (snd (processBlocks ns this)) = targetMode this"
    using processBlocks_fade [OF r, of ns] by (auto simp: crossfadeState_def split: if_splits)
  have after: "crossfadeSamplesRemaining this \<le> int (sum_list ns) \<longrightarrow>
        crossfadeProgress (snd (processBlocks ns this)) = 1
        \<and> currentMode (snd (processBlocks ns this)) = targetMode this
        \<and> targetMode (snd (processBlocks ns this)) = targetMode this
        \<and> crossfadeSamplesRemaining (snd (processBlocks ns this)) \<le> 0"
    using processBlocks_fade [OF r, of ns] by (auto simp: crossfadeState_def split: if_splits)
  have zero: "crossfadeProgress this = 0 \<longrightarrow>
        fst (renderSample True inc this) = modeSamples this (currentMode this)"
    using o by (simp add: prod_eq_iff)
  have one: "crossfadeProgress this = 1 \<longrightarrow>
        fst (renderSample True inc this) = modeSamples this (targetMode this)"
    using o by (simp add: prod_eq_iff)
  have half: "crossfadeProgress this = 0.5 \<longrightarrow>
        fst (renderSample True inc this) =
          (sqrt 2 / 2 * fst (modeSamples this (currentMode this))
             + sqrt 2 / 2 * fst (modeSamples this (targetMode this)),
           sqrt 2 / 2 * snd (modeSamples this (currentMode this))
             + sqrt 2 / 2 * snd (modeSamples this (targetMode this)))"
  proof
    assume h: "crossfadeProgress this = 0.5"
    have c: "cos (0.5 * pi * crossfadeProgress this) = sqrt 2 / 2"
      and s: "sin (0.5 * pi * crossfadeProgress this) = sqrt 2 / 2"
      unfolding h using g by simp_all
    from o have "fst (renderSample True inc this) =
       (cos (0.5 * pi * crossfadeProgress this) * fst (modeSamples this (currentMode this))
          + sin (0.5 * pi * crossfadeProgress this) * fst (modeSamples this (targetMode this)),
        cos (0.5 * pi * crossfadeProgress this) * snd (modeSamples this (currentMode this))
          + sin (0.5 * pi * crossfadeProgress this) * snd (modeSamples this (targetMode this)))"
      by (rule conjunct1)
    then show "fst (renderSample True inc this) =
          (sqrt 2 / 2 * fst (modeSamples this (currentMode this))
             + sqrt 2 / 2 * fst (modeSamples this (targetMode this)),
           sqrt 2 / 2 * snd (modeSamples this (currentMode this))
             + sqrt 2 / 2 * snd (modeSamples this (targetMode this)))"
      unfolding c s .
  qed
  have arm: "mode \<noteq> targetMode (runEvents sampleRate events (newNoiseProcessor sampleRate fallbackSeeds))
        \<and> 1 \<le> crossfadeProgress (runEvents sampleRate events (newNoiseProcessor sampleRate fallbackSeeds)) \<longrightarrow>
        crossfadeSamplesRemaining
          (handleMessage sampleRate
             (runEvents sampleRate events (newNoiseProcessor sampleRate fallbackSeeds))
             (SetMode mode)) = \<lfloor>0.05 * sampleRate\<rfloor>
        \<and> crossfadeProgress
          (handleMessage sampleRate
             (runEvents sampleRate events (newNoiseProcessor sampleRate fallbackSeeds))
             (SetMode mode)) = 0"
    by (simp add: Let_def reachable_crossfadeDuration)
  from renderBlock_fading [OF r, of n] o renderSample_progress [of inc this] blk before after
    zero one half g arm
  show ?thesis by blast
qed


text \<open>
  C1. The blend, the collapse after exactly \<open>R\<close> samples and the gains at progress 0,
  0.5 and 1 are as stated, but the progress is not the ramp from 0 to 1 over the \<open>R\<close>
  samples. At a sample rate of 48000, \<open>R = 2400\<close>. The first block of 128 frames adds
  \<open>1 / 2400\<close> per sample; the second adds \<open>1 / 2272\<close> per sample, so after 256
  samples the progress is \<open>128 / 2400 + 128 / 2272\<close>, not \<open>256 / 2400\<close>. After 13
  blocks it is above 1, with 736 samples still to render and the gain of the old mode
  negative; after 18 blocks it is above 2.7. Sample 2400 then sets it to 1.
\<close>

theorem C1_progress_leaves_ramp:
  "crossfadeState
       (runEvents 48000 [Message (SetMode Brown)] (newNoiseProcessor 48000 fallbackSeeds)) =
     (Pink, Brown, 0, \<lfloor>0.05 * 48000\<rfloor>)
   \<and> crossfadeState
       (runEvents 48000 (Message (SetMode Brown) # replicate 1 (Render (stereo 128)))
          (newNoiseProcessor 48000 fallbackSeeds)) = (Pink, Brown, 128 / 2400, 2272)
   \<and> crossfadeState
       (runEvents 48000 (Message (SetMode Brown) # replicate 2 (Render (stereo 128)))
          (newNoiseProcessor 48000 fallbackSeeds)) = (Pink, Brown, 128 / 2400 + 128 / 2272, 2144)
   \<and> crossfadeProgress
       (runEvents 48000 (Message (SetMode Brown) # replicate 2 (Render (stereo 128)))
          (newNoiseProcessor 48000 fallbackSeeds)) \<noteq> 256 / 2400
   \<and> crossfadeSamplesRemaining
       (runEvents 48000 (Message (SetMode Brown) # replicate 13 (Render (stereo 128)))
          (newNoiseProcessor 48000 fallbackSeeds)) = 736
   \<and> 1 < crossfadeProgress
       (runEvents 48000 (Message (SetMode Brown) # replicate 13 (Render (stereo 128)))
          (newNoiseProcessor 48000 fallbackSeeds))
   \<and> cos (0.5 * pi * crossfadeProgress
       (runEvents 48000 (Message (SetMode Brown) # replicate 13 (Render (stereo 128)))
          (newNoiseProcessor 48000 fallbackSeeds))) < 0
   \<and> crossfadeSamplesRemaining
       (runEvents 48000 (Message (SetMode Brown) # replicate 18 (Render (stereo 128)))
          (newNoiseProcessor 48000 fallbackSeeds)) = 96
   \<and> 2.7 < crossfadeProgress
       (runEvents 48000 (Message (SetMode Brown) # replicate 18 (Render (stereo 128)))
          (newNoiseProcessor 48000 fallbackSeeds))
   \<and> crossfadeProgress
       (runEvents 48000 (Message (SetMode Brown) # replicate 19 (Render (stereo 128)))
          (newNoiseProcessor 48000 fallbackSeeds)) = 1
   \<and> currentMode
       (runEvents 48000 (Message (SetMode Brown) # replicate 19 (Render (stereo 128)))
          (newNoiseProcessor 48000 fallbackSeeds)) = Brown"
proof -
  let ?run = "\<lambda>k. runEvents 48000 (Message (SetMode Brown) # replicate k (Render (stereo 128)))
          (newNoiseProcessor 48000 fallbackSeeds)"
  have k0: "crossfadeState
       (runEvents 48000 [Message (SetMode Brown)] (newNoiseProcessor 48000 fallbackSeeds)) =
     (Pink, Brown, 0, \<lfloor>0.05 * 48000\<rfloor>)"
    using armed_crossfade [of fallbackSeeds] by (simp add: runEvents_def)
  have k1: "crossfadeState (?run 1) = (Pink, Brown, 128 / 2400, 2272)"
    using fade_run [of 1 fallbackSeeds] by (simp add: upt_conv_Cons)
  have k2: "crossfadeState (?run 2) = (Pink, Brown, 128 / 2400 + 128 / 2272, 2144)"
    using fade_run [of 2 fallbackSeeds] by (simp add: upt_conv_Cons)
  have k13: "crossfadeState (?run 13) = (Pink, Brown, 32431011860805788 / 28853725916612025, 736)"
    by (rule fade_13)
  have k18: "crossfadeSamplesRemaining (?run 18) = 96 \<and> 2.7 < crossfadeProgress (?run 18)"
    using fade_run [of 18 fallbackSeeds] by (simp add: crossfadeState_def upt_conv_Cons)
  have k19: "crossfadeState (?run 19) = (Brown, Brown, 1, - 32)"
    by (rule fade_end)
  have p13: "crossfadeProgress (?run 13) = 32431011860805788 / 28853725916612025"
    using k13 by (simp add: crossfadeState_def)
  have neg: "cos (0.5 * pi * crossfadeProgress (?run 13)) < 0"
  proof -
    have "pi * 1 < pi * (32431011860805788 / 28853725916612025)"
      by (rule mult_strict_left_mono) simp_all
    then have lo: "pi / 2 < 0.5 * pi * (32431011860805788 / 28853725916612025)" by simp
    have "pi * (32431011860805788 / 28853725916612025) \<le> pi * 2"
      by (rule mult_left_mono) simp_all
    then have hi: "0.5 * pi * (32431011860805788 / 28853725916612025) \<le> pi" by simp
    have "0 \<le> pi / 2" by simp
    from cos_monotone_0_pi [OF this lo hi] show ?thesis unfolding p13 by simp
  qed
  from k0 k1 k2 k13 k18 k19 neg show ?thesis
    by (simp add: crossfadeState_def)
qed

end
